theory Spec2Isabelle
  imports
    Main
    "HOL-Library.Char_ord"
    "HOL-Library.List_Lexorder"
    "HOL-Library.Multiset"
begin

section \<open>JavaScript values and string operations used by lib/gpk.js\<close>

text \<open>
  The values that reach the resolver: a specifier fragment, a range, a branch and a
  manifest's version are strings, \<open>null\<close> or \<open>undefined\<close>; an entry of the remotes
  table is any JSON value, of which the code looks only at its truthiness and at
  whether it is an array (of host strings). \<open>Obj\<close> stands for any other object or
  function. Strings are lists of 8-bit characters compared by character code, which is
  how JavaScript compares strings of such characters.
\<close>

datatype jsval =
    Undefined
  | Null
  | Bool bool
  | Str string
  | Arr "string list"
  | Obj

fun truthy :: "jsval \<Rightarrow> bool" where
  "truthy Undefined = False"
| "truthy Null = False"
| "truthy (Bool b) = b"
| "truthy (Str s) = (s \<noteq> [])"
| "truthy (Arr hs) = True"
| "truthy Obj = True"

fun isArray :: "jsval \<Rightarrow> bool" where
  "isArray (Arr hs) = True"
| "isArray v = False"

text \<open>\<open>s.indexOf(pat) === 0\<close>: the string starts with the pattern.\<close>

fun startsWith :: "string \<Rightarrow> string \<Rightarrow> bool" where
  "startsWith s [] = True"
| "startsWith [] (p # ps) = False"
| "startsWith (c # cs) (p # ps) = (c = p \<and> startsWith cs ps)"

text \<open>\<open>s.indexOf(pat)\<close>: the first position where the pattern occurs, or -1.\<close>

fun indexOf :: "string \<Rightarrow> string \<Rightarrow> int" where
  "indexOf [] pat = (if pat = [] then 0 else - 1)"
| "indexOf (c # cs) pat =
     (if startsWith (c # cs) pat then 0
      else (let i = indexOf cs pat in if i < 0 then - 1 else i + 1))"

text \<open>
  \<open>s.replace(pat, rep)\<close> with a string pattern: only the first occurrence is replaced.
\<close>

fun replace :: "string \<Rightarrow> string \<Rightarrow> string \<Rightarrow> string" where
  "replace [] pat rep = (if pat = [] then rep else [])"
| "replace (c # cs) pat rep =
     (if startsWith (c # cs) pat then rep @ drop (length pat) (c # cs)
      else c # replace cs pat rep)"

text \<open>
  \<open>s.split(sep)\<close> with a one-character string separator: all the pieces, at least one.
\<close>

fun split :: "string \<Rightarrow> char \<Rightarrow> string list" where
  "split [] sep = [[]]"
| "split (c # cs) sep =
     (if c = sep then [] # split cs sep
      else (case split cs sep of
              [] \<Rightarrow> [[c]]
            | piece # pieces \<Rightarrow> (c # piece) # pieces))"

text \<open>Reading an array element by destructuring: \<open>undefined\<close> past the end.\<close>

definition element :: "string list \<Rightarrow> nat \<Rightarrow> jsval" where
  "element xs i = (if i < length xs then Str (xs ! i) else Undefined)"

section \<open>Tag matcher\<close>

text \<open>
  \<open>semver.satisfies\<close> comes from the vendored semver library, which is not part of
  lib/gpk.js: it is a parameter \<open>sat\<close> of the model, taking the version and the range
  (either may be \<open>null\<close> or \<open>undefined\<close> at the call sites).

  The comparator handed to \<open>Array.prototype.sort\<close>:
  \<^verbatim>\<open>(a, b) => { if (a == b) return 0; else return a < b ? 1 : -1; }\<close>
\<close>

definition compareTags :: "string \<Rightarrow> string \<Rightarrow> int" where
  "compareTags a b = (if a = b then 0 else if a < b then 1 else - 1)"

text \<open>
  \<open>Array.prototype.sort\<close> leaves the algorithm to the engine. The comparator above is a
  consistent total order, so every conforming algorithm returns the same array;
  insertion by the comparator stands for it.
\<close>

fun insertBy :: "('a \<Rightarrow> 'a \<Rightarrow> int) \<Rightarrow> 'a \<Rightarrow> 'a list \<Rightarrow> 'a list" where
  "insertBy cmp x [] = [x]"
| "insertBy cmp x (y # ys) =
     (if cmp x y \<le> 0 then x # y # ys else y # insertBy cmp x ys)"

fun sortBy :: "('a \<Rightarrow> 'a \<Rightarrow> int) \<Rightarrow> 'a list \<Rightarrow> 'a list" where
  "sortBy cmp [] = []"
| "sortBy cmp (x # xs) = insertBy cmp x (sortBy cmp xs)"

text \<open>The scan of the sorted tags, leaving the loop at the first match.\<close>

fun scanTags :: "(jsval \<Rightarrow> jsval \<Rightarrow> bool) \<Rightarrow> jsval \<Rightarrow> string list \<Rightarrow> string option" where
  "scanTags sat needed [] = None"
| "scanTags sat needed (tag # rest) =
     (let version = replace tag ''v'' ''''
      in if sat (Str version) needed then Some tag else scanTags sat needed rest)"

definition matchTag :: "(jsval \<Rightarrow> jsval \<Rightarrow> bool) \<Rightarrow> string list \<Rightarrow> jsval \<Rightarrow> string option" where
  "matchTag sat tags needed =
     (let filtered = filter (\<lambda>tag. indexOf tag ''v'' = 0) tags;
          sorted = sortBy compareTags filtered
      in scanTags sat needed sorted)"

text \<open>
  The tag matcher as the specification words it: keep the tags that begin with \<open>v\<close>,
  order them descending as whole strings, and take the first whose value without the
  leading \<open>v\<close> satisfies the range.
\<close>

definition matchTag_spec :: "(jsval \<Rightarrow> jsval \<Rightarrow> bool) \<Rightarrow> string list \<Rightarrow> jsval \<Rightarrow> string option" where
  "matchTag_spec sat tags needed =
     find (\<lambda>tag. sat (Str (tl tag)) needed)
       (rev (sort (filter (\<lambda>tag. tag \<noteq> [] \<and> hd tag = CHR ''v'') tags)))"

section \<open>Errors\<close>

text \<open>
  An error raised by a collaborator (the file system, git, the build tool): the core
  reads only its \<open>code\<close> and its \<open>message\<close>.
\<close>

record exn =
  err_code :: "string option"
  err_message :: string

text \<open>
  lib/gpk.js raises plain \<open>Error\<close> objects told apart by their message; each
  constructor below is one \<open>throw\<close> of the source, named as the specification names it:
  \<^item> \<open>UnknownRemote remote\<close>: \<^verbatim>\<open>Unknown remote ${remote}.\<close>
  \<^item> \<open>InvalidRemotes\<close>: \<^verbatim>\<open>Remotes expected to be an array.\<close>
  \<^item> \<open>UnknownPackage\<close>: \<^verbatim>\<open>Unknown package.\<close>
  \<^item> \<open>UnresolvableRemotes name\<close>: \<^verbatim>\<open>Unknown remotes for '${name}'.\<close>
  \<^item> \<open>VerificationError dst reason\<close>: \<^verbatim>\<open>Could not verify ${dst}, reason: ${err.message}.\<close>
  \<^item> \<open>TypeError\<close>: raised by the runtime when a method or a property is read from
    \<open>undefined\<close>;
  \<^item> \<open>Thrown e\<close>: an error of a collaborator, passed on unchanged.
\<close>

datatype error =
    UnknownRemote string
  | InvalidRemotes
  | UnknownPackage
  | UnresolvableRemotes string
  | VerificationError string string
  | TypeError
  | Thrown exn

section \<open>Specifier expander\<close>

text \<open>
  The functions of Node's \<open>path\<close> module and of the vendored semver library that the
  code calls are parameters of the model.
\<close>

record lib =
  semver_satisfies :: "jsval \<Rightarrow> jsval \<Rightarrow> bool"
  path_join :: "string \<Rightarrow> string \<Rightarrow> string"
  path_resolve :: "string \<Rightarrow> string \<Rightarrow> string"
  path_isAbsolute :: "string \<Rightarrow> bool"

text \<open>The object \<open>{git, version, branch}\<close> that \<open>expandSrc\<close> returns.\<close>

record resolved =
  git :: "string list"
  version :: jsval
  branch :: jsval

text \<open>
  A dot of a regular expression matches every character but a line terminator.
\<close>

definition lineTerminator :: "char \<Rightarrow> bool" where
  "lineTerminator c \<longleftrightarrow> c = CHR 0x0A \<or> c = CHR 0x0D"

text \<open>
  \<^verbatim>\<open>src.match(/^(git\+(ssh\:\/\/|https\:\/\/)|git\:\/\/)(.*)$/)\<close>: groups 1, 2 and 3 of
  the match, or None for \<open>null\<close>. Group 2 is \<open>undefined\<close> in the \<open>git://\<close> alternative.
  The three alternatives exclude each other, and the rest must reach the end of the
  string without a line terminator.
\<close>

definition matchRest :: "string \<Rightarrow> string option \<Rightarrow> string \<Rightarrow> (string \<times> string option \<times> string) option" where
  "matchRest protocol inner src =
     (let rest = drop (length protocol) src
      in if list_ex lineTerminator rest then None else Some (protocol, inner, rest))"

definition matchGit :: "string \<Rightarrow> (string \<times> string option \<times> string) option" where
  "matchGit src =
     (if startsWith src ''git+ssh://'' then matchRest ''git+ssh://'' (Some ''ssh://'') src
      else if startsWith src ''git+https://'' then matchRest ''git+https://'' (Some ''https://'') src
      else if startsWith src ''git://'' then matchRest ''git://'' None src
      else None)"

text \<open>
  The inner function \<open>findVersion\<close>; it returns \<open>{branch, version}\<close>, here as a pair.
  Its argument is the second element of a split, so a string or \<open>undefined\<close>.
\<close>

definition findVersion :: "jsval \<Rightarrow> jsval \<times> jsval" where
  "findVersion branch0 =
     (let version0 = (case branch0 of
                        Str b \<Rightarrow> if b \<noteq> [] then Str (replace b ''semver:'' '''') else Null
                      | _ \<Rightarrow> Null)
      in if version0 \<noteq> branch0 then (Null, version0) else (branch0, Null))"

text \<open>
  \<^verbatim>\<open>src.split(/\:(.*)/, 2)\<close>: the text before the first colon and the captured group, which
  runs from that colon to the next line terminator; without a colon the array has the
  whole string as its only element, and the second variable of the destructuring is
  \<open>undefined\<close>.
\<close>

definition splitRemote :: "string \<Rightarrow> string \<times> jsval" where
  "splitRemote src =
     (if CHR '':'' \<in> set src
      then (takeWhile (\<lambda>c. c \<noteq> CHR '':'') src,
            Str (takeWhile (\<lambda>c. \<not> lineTerminator c) (tl (dropWhile (\<lambda>c. c \<noteq> CHR '':'') src))))
      else (src, Undefined))"

text \<open>
  Reading a property \<open>obj[key]\<close> of an object made by \<open>JSON.parse\<close>: its own property
  when it has one, otherwise what it inherits from \<open>Object.prototype\<close>, whose members
  are functions (and, for \<open>__proto__\<close>, the prototype object itself).
\<close>

definition objectPrototype :: "string list" where
  "objectPrototype =
     [''constructor'', ''__defineGetter__'', ''__defineSetter__'', ''hasOwnProperty'',
      ''__lookupGetter__'', ''__lookupSetter__'', ''isPrototypeOf'', ''propertyIsEnumerable'',
      ''toString'', ''valueOf'', ''__proto__'', ''toLocaleString'']"

definition getProp :: "(string \<rightharpoonup> jsval) \<Rightarrow> string \<Rightarrow> jsval" where
  "getProp obj key =
     (case obj key of
        Some v \<Rightarrow> v
      | None \<Rightarrow> if key \<in> set objectPrototype then Obj else Undefined)"

text \<open>The body of the loop over the hosts of a remote.\<close>

definition expandHost :: "lib \<Rightarrow> string \<Rightarrow> string \<Rightarrow> string \<Rightarrow> string" where
  "expandHost lib root repo host =
     (if indexOf host ''file:'' = 0
      then (let dir0 = replace host ''file:'' '''';
                dir = (if \<not> path_isAbsolute lib dir0 then path_resolve lib root dir0 else dir0)
            in dir @ ''/'' @ repo @ ''/.git'')
      else host @ ''/'' @ repo @ ''.git'')"

text \<open>
  \<open>expandSrc(root, remotes, name, src)\<close>. A remotes table that is absent, \<open>null\<close> or
  otherwise falsy is None. \<open>split\<close> never returns an empty array, so its first element
  is read with \<open>hd\<close>.
\<close>

definition expandSrc :: "lib \<Rightarrow> string \<Rightarrow> (string \<rightharpoonup> jsval) option \<Rightarrow> string \<Rightarrow> string \<Rightarrow> error + resolved" where
  "expandSrc lib root remotes name src =
     (case matchGit src of
        Some (m1, m2, m3) \<Rightarrow>
          (let url = (case m2 of Some inner \<Rightarrow> inner @ m3 | None \<Rightarrow> m1 @ m3);
               pieces = split url CHR ''#'';
               host = hd pieces;
               extra = element pieces 1;
               (branch1, version1) = findVersion extra
           in Inr \<lparr>git = [host], version = version1, branch = branch1\<rparr>)
      | None \<Rightarrow>
          (case remotes of
             None \<Rightarrow> Inr \<lparr>git = [], version = Str src, branch = Null\<rparr>
           | Some table \<Rightarrow>
               (case splitRemote src of
                  (remote, Str ident) \<Rightarrow>
                    (let pieces = split ident CHR ''#'';
                         repo0 = hd pieces;
                         extra = element pieces 1;
                         (branch1, version1) = findVersion extra;
                         repo = (if repo0 = [] then name else repo0);
                         hosts = getProp table remote
                     in if \<not> truthy hosts then Inl (UnknownRemote remote)
                        else (case hosts of
                                Arr hs \<Rightarrow>
                                  Inr \<lparr>git = map (expandHost lib root repo) hs,
                                       version = version1, branch = branch1\<rparr>
                              | _ \<Rightarrow> Inl InvalidRemotes))
                | (remote, _) \<Rightarrow> Inl TypeError)))"

section \<open>Manifests, collaborators and the state of an installation\<close>

text \<open>
  A parsed manifest, with the fields the installer reads. A field that is absent (or
  falsy) is None. The entries of \<open>dependencies\<close>, \<open>devDependencies\<close> and \<open>remotes\<close> are
  in the order \<open>Object.entries\<close> enumerates them, one entry for each key; that is
  the order of the manifest for names that are not array indices.
\<close>

record pkg =
  pkg_version :: jsval
  pkg_dependencies :: "(string \<times> string) list option"
  pkg_devDependencies :: "(string \<times> string) list option"
  pkg_remotes :: "(string \<times> jsval) list option"

text \<open>One entry of the result of \<open>listTags\<close>.\<close>

record taginfo =
  annotated :: bool
  commit :: string

text \<open>
  The collaborators of lib/gpk.js, over a world \<open>'w\<close> (the file system and the git hosts)
  that the git operations and the build may change. \<open>readPkg\<close> stands for
  \<open>JSON.parse(await readFile(path, 'utf8'))\<close> on a manifest, which is assumed to parse to
  an object; \<open>cloneRepo\<close>, \<open>verifyRepo\<close> and \<open>listTags\<close> come from lib/git.js. Each one
  either returns or throws.
\<close>

record 'w ext =
  readPkg :: "'w \<Rightarrow> string \<Rightarrow> exn + pkg"
  listTags :: "'w \<Rightarrow> string \<Rightarrow> (exn + (string \<times> taginfo) list) \<times> 'w"
  cloneRepo :: "'w \<Rightarrow> string \<Rightarrow> string \<Rightarrow> string \<Rightarrow> (exn + bool) \<times> 'w"
  verifyRepo :: "'w \<Rightarrow> string option \<Rightarrow> string option \<Rightarrow> string \<Rightarrow> (exn + bool) \<times> 'w"
  access :: "'w \<Rightarrow> string \<Rightarrow> exn + unit"
  rebuild :: "'w \<Rightarrow> string \<Rightarrow> (exn + unit) \<times> 'w"

text \<open>
  The calls made so far, in order, kept beside the world so that properties about the
  order of calls can be stated. A call of \<open>install\<close> is one event, which holds the
  arguments \<open>dst\<close> and \<open>prefix\<close> of the call and the events of its body.
\<close>

datatype event =
    ListTags string
  | CloneRepo string string string
  | VerifyRepo "string option" "string option" string
  | Rebuild string
  | Install string "string option" "event list"

record 'w state =
  world :: 'w
  trace :: "event list"

definition callListTags :: "'w ext \<Rightarrow> string \<Rightarrow> 'w state \<Rightarrow> (exn + (string \<times> taginfo) list) \<times> 'w state" where
  "callListTags ext url st =
     (case listTags ext (world st) url of
        (r, w) \<Rightarrow> (r, \<lparr>world = w, trace = trace st @ [ListTags url]\<rparr>))"

definition callCloneRepo :: "'w ext \<Rightarrow> string \<Rightarrow> string \<Rightarrow> string \<Rightarrow> 'w state \<Rightarrow> (exn + bool) \<times> 'w state" where
  "callCloneRepo ext tag url dst st =
     (case cloneRepo ext (world st) tag url dst of
        (r, w) \<Rightarrow> (r, \<lparr>world = w, trace = trace st @ [CloneRepo tag url dst]\<rparr>))"

definition callVerifyRepo :: "'w ext \<Rightarrow> string option \<Rightarrow> string option \<Rightarrow> string \<Rightarrow> 'w state \<Rightarrow> (exn + bool) \<times> 'w state" where
  "callVerifyRepo ext tag hash dst st =
     (case verifyRepo ext (world st) tag hash dst of
        (r, w) \<Rightarrow> (r, \<lparr>world = w, trace = trace st @ [VerifyRepo tag hash dst]\<rparr>))"

definition callRebuild :: "'w ext \<Rightarrow> string \<Rightarrow> 'w state \<Rightarrow> (exn + unit) \<times> 'w state" where
  "callRebuild ext dst st =
     (case rebuild ext (world st) dst of
        (r, w) \<Rightarrow> (r, \<lparr>world = w, trace = trace st @ [Rebuild dst]\<rparr>))"

section \<open>Manifest locator\<close>

text \<open>
  The loop of \<open>locatePkg\<close>. Whether it ends when walking upward depends on
  \<open>path.resolve\<close>, so a run that never ends is None. The result \<open>{root, pkg}\<close> is the
  directory and the manifest found there, or None when both are \<open>null\<close>.
\<close>

partial_function (option) locateLoop :: "lib \<Rightarrow> 'w ext \<Rightarrow> 'w \<Rightarrow> bool \<Rightarrow> string \<Rightarrow> (exn + (string \<times> pkg) option) option" where
  "locateLoop lib ext w walk cwd =
     (case readPkg ext w (path_join lib cwd ''./package.json'') of
        Inr found \<Rightarrow> Some (Inr (Some (cwd, found)))
      | Inl err \<Rightarrow>
          if err_code err \<noteq> Some ''ENOENT'' then Some (Inl err)
          else (let parent = path_resolve lib cwd ''../''
                in if parent = cwd \<or> \<not> walk then Some (Inr None)
                   else locateLoop lib ext w walk parent))"

declare locateLoop.simps [code]

definition locatePkg :: "lib \<Rightarrow> 'w ext \<Rightarrow> 'w \<Rightarrow> string \<Rightarrow> bool \<Rightarrow> (exn + (string \<times> pkg) option) option" where
  "locatePkg lib ext w dst walk = locateLoop lib ext w walk dst"

section \<open>Install orchestrator\<close>

text \<open>
  The merge of \<open>devDependencies\<close> into \<open>dependencies\<close>:
  \<^verbatim>\<open>if (!dependencies[name]) dependencies[name] = src;\<close>
  An assignment to a key the object has keeps the key's place. A new key goes last,
  unless it is an array index: \<open>Object.entries\<close> enumerates the keys that are array
  indices first, in ascending numeric order, and the other keys after them in the
  order of their creation. An array index is the decimal numeral, without leading
  zeros, of an integer below \<open>2^32 - 1\<close>.
\<close>

definition isDigit :: "char \<Rightarrow> bool" where
  "isDigit c \<longleftrightarrow> CHR ''0'' \<le> c \<and> c \<le> CHR ''9''"

text \<open>
  Array indices have no leading zeros, so one is below another exactly when it is
  shorter, or as long and smaller as a string; \<open>4294967294\<close> is the largest.
\<close>

definition isArrayIndex :: "string \<Rightarrow> bool" where
  "isArrayIndex key \<longleftrightarrow>
     key \<noteq> [] \<and> list_all isDigit key
     \<and> (if hd key = CHR ''0'' then key = ''0'' else True)
     \<and> (length key < 10 \<or> (length key = 10 \<and> key \<le> ''4294967294''))"

definition indexLess :: "string \<Rightarrow> string \<Rightarrow> bool" where
  "indexLess a b \<longleftrightarrow> length a < length b \<or> (length a = length b \<and> a < b)"

fun replaceValue :: "(string \<times> string) list \<Rightarrow> string \<Rightarrow> string \<Rightarrow> (string \<times> string) list" where
  "replaceValue [] key v = []"
| "replaceValue ((k, x) # entries) key v =
     (if k = key then (key, v) # entries else (k, x) # replaceValue entries key v)"

fun insertIndex :: "string \<Rightarrow> string \<Rightarrow> (string \<times> string) list \<Rightarrow> (string \<times> string) list" where
  "insertIndex key v [] = [(key, v)]"
| "insertIndex key v ((k, x) # entries) =
     (if isArrayIndex k \<and> indexLess k key then (k, x) # insertIndex key v entries
      else (key, v) # (k, x) # entries)"

definition setProp :: "(string \<times> string) list \<Rightarrow> string \<Rightarrow> string \<Rightarrow> (string \<times> string) list" where
  "setProp entries key v =
     (if map_of entries key \<noteq> None then replaceValue entries key v
      else if isArrayIndex key then insertIndex key v entries
      else entries @ [(key, v)])"

definition ownProps :: "(string \<times> string) list \<Rightarrow> (string \<rightharpoonup> jsval)" where
  "ownProps entries = (\<lambda>key. map_option Str (map_of entries key))"

fun mergeDev :: "(string \<times> string) list \<Rightarrow> (string \<times> string) list \<Rightarrow> (string \<times> string) list" where
  "mergeDev dependencies [] = dependencies"
| "mergeDev dependencies ((name, src) # rest) =
     mergeDev (if \<not> truthy (getProp (ownProps dependencies) name)
               then setProp dependencies name src
               else dependencies) rest"

text \<open>
  The loop over the candidate hosts of one dependency. The result is the path pushed
  onto \<open>installed\<close>, if any. \<open>matchTag\<close> returns \<open>null\<close> or a tag that begins with \<open>v\<close>,
  so \<open>!tag\<close> holds for \<open>null\<close> only.
\<close>

fun tryHosts :: "lib \<Rightarrow> 'w ext \<Rightarrow> jsval \<Rightarrow> string \<Rightarrow> string list \<Rightarrow> 'w state \<Rightarrow> (error + string option) \<times> 'w state" where
  "tryHosts lib ext version0 dst [] st = (Inr None, st)"
| "tryHosts lib ext version0 dst (url # urls) st =
     (case callListTags ext url st of
        (Inl err, st1) \<Rightarrow> (Inl (Thrown err), st1)
      | (Inr tags, st1) \<Rightarrow>
          (case matchTag (semver_satisfies lib) (map fst tags) version0 of
             None \<Rightarrow> tryHosts lib ext version0 dst urls st1
           | Some tag \<Rightarrow>
               (case map_of tags tag of
                  None \<Rightarrow> (Inl TypeError, st1)
                | Some info \<Rightarrow>
                    (case callCloneRepo ext tag url dst st1 of
                       (Inl err, st2) \<Rightarrow> (Inl (Thrown err), st2)
                     | (Inr success0, st2) \<Rightarrow>
                         (case (if annotated info
                                then callVerifyRepo ext (Some tag) None dst st2
                                else callVerifyRepo ext None (Some (commit info)) dst st2) of
                            (Inl err, st3) \<Rightarrow> (Inl (VerificationError dst (err_message err)), st3)
                          | (Inr success, st3) \<Rightarrow>
                              if success then (Inr (Some dst), st3)
                              else tryHosts lib ext version0 dst urls st3)))))"

text \<open>
  The probe of the flat path: the manifest there, None when the file does not exist;
  any other failure is thrown.
\<close>

definition readExisting :: "'w ext \<Rightarrow> 'w \<Rightarrow> string \<Rightarrow> exn + pkg option" where
  "readExisting ext w file =
     (case readPkg ext w file of
        Inr existingPkg \<Rightarrow> Inr (Some existingPkg)
      | Inl err \<Rightarrow> if err_code err \<noteq> Some ''ENOENT'' then Inl err else Inr None)"

text \<open>
  The body of the loop over the dependencies, for one entry \<open>[name, src]\<close>. The result
  None is a dependency for which nothing was pushed onto \<open>installed\<close>.
\<close>

definition installDep :: "lib \<Rightarrow> 'w ext \<Rightarrow> string \<Rightarrow> string \<Rightarrow> (string \<times> jsval) list option \<Rightarrow> string \<Rightarrow> string \<Rightarrow> 'w state \<Rightarrow> (error + string option) \<times> 'w state" where
  "installDep lib ext root prefix remotes name src st =
     (case expandSrc lib prefix (map_option map_of remotes) name src of
        Inl err \<Rightarrow> (Inl err, st)
      | Inr r \<Rightarrow>
          (let flat = path_join lib prefix (''./node_modules/'' @ name)
           in case readExisting ext (world st) (path_join lib flat ''./package.json'') of
                Inl err \<Rightarrow> (Inl (Thrown err), st)
              | Inr None \<Rightarrow>
                  if git r = [] then (Inl (UnresolvableRemotes name), st)
                  else tryHosts lib ext (version r) flat (git r) st
              | Inr (Some existingPkg) \<Rightarrow>
                  if semver_satisfies lib (pkg_version existingPkg) (version r) then (Inr None, st)
                  else (let dst = path_join lib root (''./node_modules/'' @ name)
                        in if git r = [] then (Inl (UnresolvableRemotes name), st)
                           else tryHosts lib ext (version r) dst (git r) st)))"

fun installDeps :: "lib \<Rightarrow> 'w ext \<Rightarrow> string \<Rightarrow> string \<Rightarrow> (string \<times> jsval) list option \<Rightarrow> (string \<times> string) list \<Rightarrow> string list \<Rightarrow> 'w state \<Rightarrow> (error + string list) \<times> 'w state" where
  "installDeps lib ext root prefix remotes [] installed st = (Inr installed, st)"
| "installDeps lib ext root prefix remotes ((name, src) # rest) installed st =
     (case installDep lib ext root prefix remotes name src st of
        (Inl err, st1) \<Rightarrow> (Inl err, st1)
      | (Inr None, st1) \<Rightarrow> installDeps lib ext root prefix remotes rest installed st1
      | (Inr (Some dst), st1) \<Rightarrow> installDeps lib ext root prefix remotes rest (installed @ [dst]) st1)"

text \<open>
  \<open>install\<close> up to the end of the loop over the dependencies: an error, None for the
  early return of a manifest without dependencies, or \<open>root\<close>, the prefix in force and
  the list \<open>installed\<close>.
\<close>

definition resolveDeps :: "lib \<Rightarrow> 'w ext \<Rightarrow> string \<Rightarrow> string option \<Rightarrow> bool \<Rightarrow> 'w state \<Rightarrow> ((error + (string \<times> string \<times> string list) option) \<times> 'w state) option" where
  "resolveDeps lib ext dst prefix production st =
     (case locatePkg lib ext (world st) dst False of
        None \<Rightarrow> None
      | Some (Inl err) \<Rightarrow> Some (Inl (Thrown err), st)
      | Some (Inr None) \<Rightarrow> Some (Inl UnknownPackage, st)
      | Some (Inr (Some (root, p))) \<Rightarrow>
          (let prefix1 = (case prefix of None \<Rightarrow> root | Some given \<Rightarrow> given)
           in case pkg_dependencies p of
                None \<Rightarrow> Some (Inr None, st)
              | Some deps \<Rightarrow>
                  (let dependencies =
                         (case pkg_devDependencies p of
                            Some dev \<Rightarrow> if \<not> production then mergeDev deps dev else deps
                          | None \<Rightarrow> deps)
                   in case installDeps lib ext root prefix1 (pkg_remotes p) dependencies [] st of
                        (Inl err, st1) \<Rightarrow> Some (Inl err, st1)
                      | (Inr installed, st1) \<Rightarrow> Some (Inr (Some (root, prefix1, installed)), st1))))"

text \<open>The check for a native addon, and its build.\<close>

definition buildAddon :: "lib \<Rightarrow> 'w ext \<Rightarrow> string \<Rightarrow> 'w state \<Rightarrow> (error + unit) \<times> 'w state" where
  "buildAddon lib ext root st =
     (let gyp = path_join lib root ''./binding.gyp''
      in case access ext (world st) gyp of
           Inl err \<Rightarrow> if err_code err \<noteq> Some ''ENOENT'' then (Inl (Thrown err), st) else (Inr (), st)
         | Inr ok \<Rightarrow>
             (case callRebuild ext root st of
                (Inl err, st1) \<Rightarrow> (Inl (Thrown err), st1)
              | (Inr done, st1) \<Rightarrow> (Inr (), st1)))"

text \<open>
  \<open>install(dst, prefix, options)\<close>, with \<open>options.production\<close> as a boolean. The
  recursion follows the packages it installs and need not end, so the function takes
  the depth of recursion it may use; None is a run that needs more. The recursive call
  \<open>install(nextDst, prefix)\<close> leaves \<open>options\<close> to its default.
\<close>

fun install :: "nat \<Rightarrow> lib \<Rightarrow> 'w ext \<Rightarrow> string \<Rightarrow> string option \<Rightarrow> bool \<Rightarrow> 'w state \<Rightarrow> ((error + unit) \<times> 'w state) option"
  and installEach :: "nat \<Rightarrow> lib \<Rightarrow> 'w ext \<Rightarrow> string \<Rightarrow> string list \<Rightarrow> 'w state \<Rightarrow> ((error + unit) \<times> 'w state) option"
  where
  "install 0 lib ext dst prefix production st = None"
| "install (Suc n) lib ext dst prefix production st =
     (case (case resolveDeps lib ext dst prefix production (st\<lparr>trace := []\<rparr>) of
              None \<Rightarrow> None
            | Some (Inl err, st1) \<Rightarrow> Some (Inl err, st1)
            | Some (Inr None, st1) \<Rightarrow> Some (Inr (), st1)
            | Some (Inr (Some (root, prefix1, installed)), st1) \<Rightarrow>
                (case installEach n lib ext prefix1 installed st1 of
                   None \<Rightarrow> None
                 | Some (Inl err, st2) \<Rightarrow> Some (Inl err, st2)
                 | Some (Inr done, st2) \<Rightarrow> Some (buildAddon lib ext root st2))) of
        None \<Rightarrow> None
      | Some (r, st3) \<Rightarrow> Some (r, st3\<lparr>trace := trace st @ [Install dst prefix (trace st3)]\<rparr>))"
| "installEach n lib ext prefix [] st = Some (Inr (), st)"
| "installEach n lib ext prefix (nextDst # rest) st =
     (case install n lib ext nextDst (Some prefix) False st of
        None \<Rightarrow> None
      | Some (Inl err, st1) \<Rightarrow> Some (Inl err, st1)
      | Some (Inr done, st1) \<Rightarrow> installEach n lib ext prefix rest st1)"

section \<open>A small concrete system\<close>

text \<open>
  Concrete collaborators on which the theorems below are run. \<open>exactVersion\<close> is
  \<open>semver.satisfies\<close> on ranges that are one exact version \<open>x.y.z\<close>; \<open>demoJoin\<close> is
  \<open>path.join\<close> on a normalised directory and a relative path that may begin with
  \<open>./\<close>. The world is the list of manifests on disk, by file name; \<open>hosts\<close> gives, for
  a git URL, its tags and the manifest a clone of it brings.
\<close>

definition exactVersion :: "jsval \<Rightarrow> jsval \<Rightarrow> bool" where
  "exactVersion v r = (case (v, r) of (Str a, Str b) \<Rightarrow> a = b | _ \<Rightarrow> False)"

definition demoJoin :: "string \<Rightarrow> string \<Rightarrow> string" where
  "demoJoin a b = a @ ''/'' @ (if startsWith b ''./'' then drop 2 b else b)"

definition demoLib :: lib where
  "demoLib = \<lparr>semver_satisfies = exactVersion, path_join = demoJoin,
     path_resolve = demoJoin, path_isAbsolute = (\<lambda>p. startsWith p ''/'')\<rparr>"

definition noent :: exn where
  "noent = \<lparr>err_code = Some ''ENOENT'', err_message = ''no such file or directory''\<rparr>"

definition demoExt :: "(string \<times> (string \<times> taginfo) list \<times> pkg) list \<Rightarrow> bool \<Rightarrow> (string option \<Rightarrow> string option \<Rightarrow> bool) \<Rightarrow> (string \<times> pkg) list ext" where
  "demoExt hosts cloned verified = \<lparr>
     readPkg = (\<lambda>w file. case map_of w file of Some p \<Rightarrow> Inr p | None \<Rightarrow> Inl noent),
     listTags = (\<lambda>w url. (Inr (case map_of hosts url of Some (tags, p) \<Rightarrow> tags | None \<Rightarrow> []), w)),
     cloneRepo = (\<lambda>w tag url dst. (Inr cloned,
        (case map_of hosts url of
           Some (tags, p) \<Rightarrow> (demoJoin dst ''./package.json'', p) # w
         | None \<Rightarrow> w))),
     verifyRepo = (\<lambda>w tag hash dst. (Inr (verified tag hash), w)),
     access = (\<lambda>w file. Inl noent),
     rebuild = (\<lambda>w dst. (Inr (), w))\<rparr>"

definition leaf :: "string \<Rightarrow> pkg" where
  "leaf v = \<lparr>pkg_version = Str v, pkg_dependencies = None,
     pkg_devDependencies = None, pkg_remotes = None\<rparr>"

text \<open>
  Manifests and hosts for the runs below: an application that depends on \<open>b\<close> at
  version \<open>1.0.0\<close>, one that depends on \<open>b\<close> and \<open>c\<close>, and the hosts of \<open>b\<close> and \<open>c\<close>,
  each with one annotated tag.
\<close>

definition app :: pkg where
  "app = \<lparr>pkg_version = Str ''1.0.0'',
     pkg_dependencies = Some [(''b'', ''git://h/b.git#semver:1.0.0'')],
     pkg_devDependencies = None, pkg_remotes = None\<rparr>"

definition app2 :: pkg where
  "app2 = \<lparr>pkg_version = Str ''1.0.0'',
     pkg_dependencies = Some [(''b'', ''git://h/b.git#semver:1.0.0''),
                              (''c'', ''git://h/c.git#semver:2.0.0'')],
     pkg_devDependencies = None, pkg_remotes = None\<rparr>"

definition hostB :: "string \<times> (string \<times> taginfo) list \<times> pkg" where
  "hostB = (''git://h/b.git'', [(''v1.0.0'', \<lparr>annotated = True, commit = ''c1''\<rparr>)], leaf ''1.0.0'')"

definition hostC :: "string \<times> (string \<times> taginfo) list \<times> pkg" where
  "hostC = (''git://h/c.git'', [(''v2.0.0'', \<lparr>annotated = True, commit = ''c2''\<rparr>)], leaf ''2.0.0'')"

text \<open>A host of \<open>b\<close> whose only tag is the older version \<open>0.9.0\<close>.\<close>

definition hostOld :: "string \<times> (string \<times> taginfo) list \<times> pkg" where
  "hostOld = (''git://h/b.git'', [(''v0.9.0'', \<lparr>annotated = True, commit = ''c0''\<rparr>)], leaf ''0.9.0'')"

text \<open>A mirror of \<open>b\<close> whose tag \<open>v1.0.0\<close> is lightweight.\<close>

definition hostLight :: "string \<times> (string \<times> taginfo) list \<times> pkg" where
  "hostLight = (''git://m/b.git'', [(''v1.0.0'', \<lparr>annotated = False, commit = ''c9''\<rparr>)], leaf ''1.0.0'')"

text \<open>
  A deeper tree: a release of \<open>b\<close> that itself depends on \<open>d\<close>, the host that serves
  it, the host of \<open>d\<close>, and a remotes table with a mirror listed before the main host.
\<close>

definition libB :: pkg where
  "libB = \<lparr>pkg_version = Str ''1.0.0'',
     pkg_dependencies = Some [(''d'', ''git://h/d.git#semver:3.0.0'')],
     pkg_devDependencies = None, pkg_remotes = None\<rparr>"

definition hostB2 :: "string \<times> (string \<times> taginfo) list \<times> pkg" where
  "hostB2 = (''git://h/b.git'', [(''v1.0.0'', \<lparr>annotated = True, commit = ''c1''\<rparr>)], libB)"

definition hostD :: "string \<times> (string \<times> taginfo) list \<times> pkg" where
  "hostD = (''git://h/d.git'', [(''v3.0.0'', \<lparr>annotated = True, commit = ''c3''\<rparr>)], leaf ''3.0.0'')"

definition mirrors :: "(string \<times> jsval) list" where
  "mirrors = [(''both'', Arr [''git://m'', ''git://h'']), (''main'', Arr [''git://h''])]"

text \<open>Collaborators whose verification always throws.\<close>

definition brokenExt :: "(string \<times> (string \<times> taginfo) list \<times> pkg) list \<Rightarrow> (string \<times> pkg) list ext" where
  "brokenExt hosts = (demoExt hosts True (\<lambda>t h. True))
     \<lparr>verifyRepo := (\<lambda>w tag hash dst.
        (Inl \<lparr>err_code = None, err_message = ''bad signature''\<rparr>, w))\<rparr>"

text \<open>An application that takes \<open>b\<close> from the remote \<open>main\<close> of its remotes table.\<close>

definition appMirror :: pkg where
  "appMirror = \<lparr>pkg_version = Str ''1.0.0'',
     pkg_dependencies = Some [(''b'', ''main:b#semver:1.0.0'')],
     pkg_devDependencies = None, pkg_remotes = Some mirrors\<rparr>"

section \<open>Notions used to state the properties\<close>

text \<open>The fragment of a string: the second element of \<open>s.split('#')\<close>, if there is one.\<close>

definition fragment :: "string \<Rightarrow> jsval" where
  "fragment s = element (split s CHR ''#'') 1"

text \<open>The calls of \<open>install\<close> among a list of events, with their arguments.\<close>

fun installCalls :: "event list \<Rightarrow> (string \<times> string option) list" where
  "installCalls [] = []"
| "installCalls (Install dst prefix body # evs) = (dst, prefix) # installCalls evs"
| "installCalls (ev # evs) = installCalls evs"

text \<open>The destinations of the clones among a list of events.\<close>

fun cloneTargets :: "event list \<Rightarrow> string list" where
  "cloneTargets [] = []"
| "cloneTargets (CloneRepo tag url dst # evs) = dst # cloneTargets evs"
| "cloneTargets (ev # evs) = cloneTargets evs"

text \<open>The remote alias of a specifier \<open>alias:rest\<close>: the text before the first colon.\<close>

definition aliasOf :: "string \<Rightarrow> string" where
  "aliasOf src = takeWhile (\<lambda>c. c \<noteq> CHR '':'') src"

text \<open>
  The text of a specifier \<open>alias:rest\<close> that the split captures after the alias: from
  the first colon to the first line terminator after it, or to the end.
\<close>

definition afterColon :: "string \<Rightarrow> string" where
  "afterColon src =
     takeWhile (\<lambda>c. \<not> lineTerminator c) (tl (dropWhile (\<lambda>c. c \<noteq> CHR '':'') src))"

text \<open>
  Sequencing of steps that may throw or not return: the second step runs from the
  state the first one left, and only when the first one returned normally.
\<close>

definition andThen :: "((error + unit) \<times> 's) option \<Rightarrow> ('s \<Rightarrow> ((error + unit) \<times> 's) option) \<Rightarrow> ((error + unit) \<times> 's) option" where
  "andThen first next =
     (case first of
        None \<Rightarrow> None
      | Some (Inl err, st) \<Rightarrow> Some (Inl err, st)
      | Some (Inr u, st) \<Rightarrow> next st)"

text \<open>
  Calling an operation on every element of a list, in the order of the list, as the
  specification words the recursion: each call starts where the previous one ended,
  and the first call that fails ends the whole.
\<close>

fun eachInOrder :: "('a \<Rightarrow> 's \<Rightarrow> ((error + unit) \<times> 's) option) \<Rightarrow> 'a list \<Rightarrow> 's \<Rightarrow> ((error + unit) \<times> 's) option" where
  "eachInOrder call [] st = Some (Inr (), st)"
| "eachInOrder call (x # xs) st = andThen (call x st) (\<lambda>st1. eachInOrder call xs st1)"

text \<open>
  The events of the body of a call \<open>install(dst, prefix)\<close> made in state \<open>st\<close>, filed
  as one event after the events of \<open>st\<close>.
\<close>

definition asCall :: "'w state \<Rightarrow> string \<Rightarrow> string option \<Rightarrow> (error + unit) \<times> 'w state \<Rightarrow> (error + unit) \<times> 'w state" where
  "asCall st dst prefix result =
     (case result of
        (r, st3) \<Rightarrow> (r, st3\<lparr>trace := trace st @ [Install dst prefix (trace st3)]\<rparr>))"

section \<open>Properties of the string operations\<close>

lemma startsWith_append: "startsWith s p \<longleftrightarrow> (\<exists>r. s = p @ r)"
  by (induction s p rule: startsWith.induct) auto

lemma startsWith_v: "startsWith s ''v'' \<longleftrightarrow> s \<noteq> [] \<and> hd s = CHR ''v''"
  by (cases s) auto

lemma indexOf_zero: "indexOf s pat = 0 \<longleftrightarrow> startsWith s pat"
  by (cases s; cases pat) (auto simp: Let_def)

lemma replace_leading: "startsWith s pat \<Longrightarrow> replace s pat rep = rep @ drop (length pat) s"
  by (cases s) (auto simp: startsWith_append)

lemma replace_v: "startsWith tag ''v'' \<Longrightarrow> replace tag ''v'' '''' = tl tag"
  by (cases tag) auto

lemma split_nonempty: "split s sep \<noteq> []"
  by (induction s) (auto split: list.splits)

section \<open>Properties of the tag matcher\<close>

lemma mset_insertBy: "mset (insertBy cmp x xs) = add_mset x (mset xs)"
  by (induction xs) auto

lemma mset_sortBy: "mset (sortBy cmp xs) = mset xs"
  by (induction xs) (auto simp: mset_insertBy)

lemma set_insertBy: "set (insertBy cmp x xs) = insert x (set xs)"
  by (induction xs) auto

lemma set_sortBy: "set (sortBy cmp xs) = set xs"
  by (induction xs) (auto simp: set_insertBy)

lemma compareTags_le: "compareTags a b \<le> 0 \<longleftrightarrow> b \<le> a"
  by (auto simp: compareTags_def)

lemma descending_insertBy:
  "sorted (rev xs) \<Longrightarrow> sorted (rev (insertBy compareTags x xs))"
  by (induction xs) (auto simp: sorted_append compareTags_le set_insertBy)

lemma descending_sortBy: "sorted (rev (sortBy compareTags xs))"
  by (induction xs) (auto simp: descending_insertBy)

lemma sortBy_compareTags: "sortBy compareTags xs = rev (sort xs)"
proof -
  have "sort xs = rev (sortBy compareTags xs)"
    by (rule properties_for_sort) (simp_all add: mset_sortBy descending_sortBy)
  then show ?thesis by simp
qed

lemma scanTags_find:
  "\<forall>tag \<in> set ts. startsWith tag ''v'' \<Longrightarrow>
   scanTags sat needed ts = find (\<lambda>tag. sat (Str (tl tag)) needed) ts"
  by (induction ts) (auto simp: replace_v simp del: startsWith.simps)

lemma scanTags_Some:
  "scanTags sat needed ts = Some tag \<Longrightarrow>
   tag \<in> set ts \<and> sat (Str (replace tag ''v'' '''')) needed"
  by (induction ts) (auto simp: Let_def split: if_splits)

lemma matchTag_nonempty: "matchTag sat tags needed = Some tag \<Longrightarrow> tag \<noteq> []"
  by (auto simp: matchTag_def Let_def set_sortBy indexOf_zero startsWith_v
      dest!: scanTags_Some)

text \<open>
  C6. For every tag set and range, \<open>matchTag\<close> does what the specification says: it
  keeps the tags that begin with \<open>v\<close>, puts them in descending order as whole strings
  (the lexicographic order of the characters, not the order of the version numbers),
  and returns the first tag in that order whose value without the leading \<open>v\<close>
  satisfies the range, or \<open>null\<close> when there is none.
\<close>

theorem matchTag_refines_spec:
  "matchTag sat tags needed = matchTag_spec sat tags needed"
proof -
  have same: "filter (\<lambda>tag. indexOf tag ''v'' = 0) tags
      = filter (\<lambda>tag. tag \<noteq> [] \<and> hd tag = CHR ''v'') tags"
    by (simp only: indexOf_zero startsWith_v)
  have "\<forall>tag \<in> set (sortBy compareTags (filter (\<lambda>tag. indexOf tag ''v'' = 0) tags)).
          startsWith tag ''v''"
    by (simp only: set_sortBy set_filter indexOf_zero) blast
  then have "scanTags sat needed (sortBy compareTags (filter (\<lambda>tag. indexOf tag ''v'' = 0) tags))
      = find (\<lambda>tag. sat (Str (tl tag)) needed)
          (sortBy compareTags (filter (\<lambda>tag. indexOf tag ''v'' = 0) tags))"
    by (rule scanTags_find)
  then show ?thesis
    by (simp only: matchTag_def matchTag_spec_def Let_def sortBy_compareTags same)
qed

theorem matchTag_refines_spec_witness:
  "matchTag (\<lambda>v r. True) [''v2.0.0'', ''latest'', ''v10.0.0''] Null = Some ''v2.0.0''
   \<and> matchTag_spec (\<lambda>v r. True) [''v2.0.0'', ''latest'', ''v10.0.0''] Null = Some ''v2.0.0''"
proof -
  have "matchTag (\<lambda>v r. True) [''v2.0.0'', ''latest'', ''v10.0.0''] Null = Some ''v2.0.0''"
    by (simp add: matchTag_def compareTags_def)
  then show ?thesis
    using matchTag_refines_spec [of "\<lambda>v r. True" "[''v2.0.0'', ''latest'', ''v10.0.0'']" Null]
    by simp
qed

text \<open>
  C7. For every tag set and range, a tag that \<open>matchTag\<close> returns is one of the tags it
  was given, begins with \<open>v\<close>, and its value without that \<open>v\<close> satisfies the range;
  the only other result is \<open>null\<close>.
\<close>

theorem matchTag_sound:
  "matchTag sat tags needed = Some tag \<Longrightarrow>
   tag \<in> set tags \<and> indexOf tag ''v'' = 0 \<and> hd tag = CHR ''v''
   \<and> sat (Str (replace tag ''v'' '''')) needed \<and> sat (Str (tl tag)) needed"
proof -
  assume "matchTag sat tags needed = Some tag"
  then have "tag \<in> set (sortBy compareTags (filter (\<lambda>tag. indexOf tag ''v'' = 0) tags))"
    and ok: "sat (Str (replace tag ''v'' '''')) needed"
    by (auto simp: matchTag_def Let_def dest: scanTags_Some)
  then have mem: "tag \<in> set tags" and v: "indexOf tag ''v'' = 0"
    by (simp_all add: set_sortBy)
  from v have sw: "startsWith tag ''v''"
    by (simp only: indexOf_zero)
  then have "hd tag = CHR ''v''" and "replace tag ''v'' '''' = tl tag"
    by (simp_all only: replace_v) (simp add: startsWith_v)
  with mem v ok show ?thesis
    by simp
qed

theorem matchTag_sound_witness:
  "matchTag exactVersion [''1.5.0'', ''v1.0.0'', ''v1.5.0'', ''v2.0.0''] (Str ''1.5.0'') = Some ''v1.5.0''
   \<and> ''v1.5.0'' \<in> set [''1.5.0'', ''v1.0.0'', ''v1.5.0'', ''v2.0.0'']
   \<and> exactVersion (Str (tl ''v1.5.0'')) (Str ''1.5.0'')"
proof -
  have run: "matchTag exactVersion [''1.5.0'', ''v1.0.0'', ''v1.5.0'', ''v2.0.0''] (Str ''1.5.0'') = Some ''v1.5.0''"
    by (simp add: matchTag_def compareTags_def exactVersion_def)
  from matchTag_sound [OF run] run show ?thesis
    by simp
qed

section \<open>Properties of the specifier expander\<close>

lemma hd_split: "hd (split s sep) = takeWhile (\<lambda>c. c \<noteq> sep) s"
  by (induction s) (auto split: list.splits simp: split_nonempty)

lemma split_hash_append:
  "CHR ''#'' \<notin> set p \<Longrightarrow>
   split (p @ s) CHR ''#'' = (p @ hd (split s CHR ''#'')) # tl (split s CHR ''#'')"
  by (induction p) (auto split: list.splits simp: split_nonempty)

lemma fragment_append: "CHR ''#'' \<notin> set p \<Longrightarrow> fragment (p @ s) = fragment s"
  using split_nonempty [of s "CHR ''#''"]
  by (cases "split s CHR ''#''") (auto simp: fragment_def element_def split_hash_append)

lemma fragment_cases: "fragment s = Undefined \<or> (\<exists>f. fragment s = Str f)"
  by (simp add: fragment_def element_def)

lemma findVersion_cases:
  "findVersion extra = (b, v) \<Longrightarrow> extra = Undefined \<or> (\<exists>f. extra = Str f) \<Longrightarrow>
   (b = Null \<or> v = Null) \<and> ((b \<noteq> Null \<or> v \<noteq> Null) \<longleftrightarrow> truthy extra)"
  by (cases extra) (auto simp: findVersion_def Let_def split: if_splits)

lemma matchGit_Some:
  "matchGit src = Some (m1, m2, m3) \<Longrightarrow>
   src = m1 @ m3 \<and> CHR ''#'' \<notin> set m1 \<and> (\<forall>inner. m2 = Some inner \<longrightarrow> CHR ''#'' \<notin> set inner)"
  by (auto simp: matchGit_def matchRest_def Let_def startsWith_append split: if_splits)

lemma expandSrc_without_colon:
  "matchGit src = None \<Longrightarrow> CHR '':'' \<notin> set src \<Longrightarrow>
   expandSrc lib root (Some table) name src = Inl TypeError"
  by (simp add: expandSrc_def splitRemote_def)

lemma expandSrc_alias_with_colon:
  "table ''origin'' = Some (Arr [''https://h.example/org'']) \<Longrightarrow>
   expandSrc lib root (Some table) ''foo'' ''origin:#develop'' =
     Inr \<lparr>git = [''https://h.example/org/foo.git''], version = Null, branch = Str ''develop''\<rparr>"
  by (simp add: expandSrc_def splitRemote_def matchGit_def lineTerminator_def element_def
      findVersion_def getProp_def expandHost_def)

text \<open>
  C1. The specification expects that, for every remotes table that maps \<open>origin\<close> to
  \<open>["https://h.example/org"]\<close>, expanding \<open>origin#develop\<close> for the dependency \<open>foo\<close>
  gives the candidates \<open>["https://h.example/org/foo.git"]\<close>, the branch \<open>develop\<close> and
  no version range, the repository name of an alias without a colon being the
  dependency name. In the source the specifier has no colon, so the second variable of
  \<^verbatim>\<open>const [remote, id] = src.split(/\:(.*)/, 2)\<close> is \<open>undefined\<close>, and \<open>id.split('#')\<close>
  raises a TypeError whatever the table holds; the default \<open>repo = name\<close> is reached
  only with a colon, as in \<open>origin:#develop\<close> (lemma \<open>expandSrc_alias_with_colon\<close>).
\<close>

theorem expandSrc_alias_without_colon:
  "expandSrc lib root (Some table) ''foo'' ''origin#develop'' = Inl TypeError"
  by (simp add: expandSrc_def splitRemote_def matchGit_def)

text \<open>
  C4, as the specification states it, fails: a git URL without a fragment expands
  with neither a version range nor a branch.
\<close>

theorem expandSrc_neither_counterexample:
  "expandSrc demoLib ''/app'' None ''pkg'' ''git://example.com/pkg.git'' =
     Inr \<lparr>git = [''git://example.com/pkg.git''], version = Null, branch = Null\<rparr>"
  by (simp add: expandSrc_def matchGit_def matchRest_def lineTerminator_def element_def
      findVersion_def)

lemma splitRemote_colon:
  "CHR '':'' \<in> set src \<Longrightarrow> splitRemote src = (aliasOf src, Str (afterColon src))"
  by (simp add: splitRemote_def aliasOf_def afterColon_def)

lemma expandSrc_version_branch_split:
  assumes "expandSrc lib root remotes name src = Inr r"
  shows "(version r = Null \<or> branch r = Null)
    \<and> (matchGit src \<noteq> None \<longrightarrow>
         ((version r \<noteq> Null \<or> branch r \<noteq> Null) \<longleftrightarrow> truthy (fragment src)))
    \<and> (matchGit src = None \<and> remotes = None \<longrightarrow> version r = Str src \<and> branch r = Null)
    \<and> (matchGit src = None \<and> remotes \<noteq> None \<longrightarrow>
         (\<exists>remote ident. splitRemote src = (remote, Str ident)
            \<and> ((version r \<noteq> Null \<or> branch r \<noteq> Null) \<longleftrightarrow> truthy (fragment ident))))"
proof (cases "matchGit src")
  case None
  show ?thesis
  proof (cases remotes)
    case bare: None
    with None assms show ?thesis
      by (auto simp: expandSrc_def)
  next
    case (Some table)
    obtain remote iv where sr: "splitRemote src = (remote, iv)"
      by (cases "splitRemote src")
    with None Some assms obtain ident where iv: "iv = Str ident"
      by (cases iv) (auto simp: expandSrc_def)
    obtain b v where fv: "findVersion (fragment ident) = (b, v)"
      by (cases "findVersion (fragment ident)")
    with None Some assms sr iv have "version r = v" "branch r = b"
      by (auto simp: expandSrc_def Let_def fragment_def split: if_splits jsval.splits)
    with findVersion_cases [OF fv fragment_cases] None Some sr iv show ?thesis
      by auto
  qed
next
  case (Some m)
  obtain m1 m2 m3 where m: "m = (m1, m2, m3)"
    by (cases m)
  define url where "url = (case m2 of Some inner \<Rightarrow> inner @ m3 | None \<Rightarrow> m1 @ m3)"
  from matchGit_Some Some m have "src = m1 @ m3" and "CHR ''#'' \<notin> set m1"
    and "\<forall>inner. m2 = Some inner \<longrightarrow> CHR ''#'' \<notin> set inner"
    by blast+
  then have "fragment url = fragment src"
    by (cases m2) (auto simp: url_def fragment_append)
  moreover obtain b v where fv: "findVersion (fragment url) = (b, v)"
    by (cases "findVersion (fragment url)")
  moreover from Some m assms fv have "version r = v" "branch r = b"
    by (auto simp: expandSrc_def Let_def fragment_def url_def)
  ultimately show ?thesis
    using findVersion_cases [OF fv fragment_cases] Some by auto
qed

text \<open>
  C4, amended. For every root, remotes table, dependency name and specifier on which
  expansion succeeds, the result never has both \<open>version\<close> and \<open>branch\<close> set. The
  fragment of a text is what stands between its first \<open>#\<close> and its next \<open>#\<close>, or its
  end. A specifier that is a git URL has exactly one of \<open>version\<close> and \<open>branch\<close> set
  when the fragment of the specifier is a non-empty string, and neither when there is
  no \<open>#\<close> or the fragment is empty. A specifier that is looked up in a remotes table
  has a colon, and the same holds for it with the fragment of the text that follows
  its first colon, up to the first line terminator after that colon: a \<open>#\<close> that
  comes only after a line terminator is not seen, and neither field is set. A
  specifier taken as a bare version (no git URL, no remotes table) has \<open>version\<close> set
  to the specifier itself and no branch.
\<close>

theorem expandSrc_version_branch:
  assumes "expandSrc lib root remotes name src = Inr r"
  shows "(version r = Null \<or> branch r = Null)
    \<and> (matchGit src \<noteq> None \<longrightarrow>
         ((version r \<noteq> Null \<or> branch r \<noteq> Null) \<longleftrightarrow> truthy (fragment src)))
    \<and> (matchGit src = None \<and> remotes = None \<longrightarrow> version r = Str src \<and> branch r = Null)
    \<and> (matchGit src = None \<and> remotes \<noteq> None \<longrightarrow>
         CHR '':'' \<in> set src
         \<and> ((version r \<noteq> Null \<or> branch r \<noteq> Null)
              \<longleftrightarrow> truthy (fragment (afterColon src))))"
proof -
  have colon: "CHR '':'' \<in> set src" if "matchGit src = None" "remotes \<noteq> None"
  proof (rule ccontr)
    assume "CHR '':'' \<notin> set src"
    with that obtain table where "remotes = Some table"
      and "expandSrc lib root (Some table) name src = Inl TypeError"
      by (auto simp: expandSrc_without_colon)
    with assms show False by simp
  qed
  from expandSrc_version_branch_split [OF assms] colon show ?thesis
    by (auto simp: splitRemote_colon)
qed

lemma expandSrc_git_semver_example:
  "expandSrc demoLib ''/app'' None ''pkg'' ''git+https://example.com/pkg.git#semver:^1.2.0''
     = Inr \<lparr>git = [''https://example.com/pkg.git''], version = Str ''^1.2.0'', branch = Null\<rparr>"
  by (simp add: expandSrc_def matchGit_def matchRest_def lineTerminator_def element_def
      findVersion_def)

lemma expandSrc_alias_branch_example:
  "expandSrc demoLib ''/app'' (Some [''origin'' \<mapsto> Arr [''https://h.example/org'']]) ''foo''
       ''origin:#develop''
     = Inr \<lparr>git = [''https://h.example/org/foo.git''], version = Null, branch = Str ''develop''\<rparr>"
  by (rule expandSrc_alias_with_colon) simp

lemma expandSrc_bare_version_example:
  "expandSrc demoLib ''/app'' None ''foo'' ''1.0.0''
     = Inr \<lparr>git = [], version = Str ''1.0.0'', branch = Null\<rparr>"
  by (simp add: expandSrc_def matchGit_def)

text \<open>A \<open>#\<close> after a line terminator: the split does not capture it.\<close>

lemma expandSrc_line_break_example:
  "expandSrc demoLib ''/app'' (Some [''r'' \<mapsto> Arr [''h'']]) ''x'' (''r:a'' @ [CHR 0x0A] @ ''b#c'')
     = Inr \<lparr>git = [''h/a.git''], version = Null, branch = Null\<rparr>"
  by (simp add: expandSrc_def matchGit_def splitRemote_def lineTerminator_def element_def
      findVersion_def getProp_def expandHost_def)

theorem expandSrc_version_branch_witness:
  "expandSrc demoLib ''/app'' None ''pkg'' ''git+https://example.com/pkg.git#semver:^1.2.0''
     = Inr \<lparr>git = [''https://example.com/pkg.git''], version = Str ''^1.2.0'', branch = Null\<rparr>
   \<and> truthy (fragment ''git+https://example.com/pkg.git#semver:^1.2.0'')
   \<and> expandSrc demoLib ''/app'' (Some [''origin'' \<mapsto> Arr [''https://h.example/org'']]) ''foo''
         ''origin:#develop''
     = Inr \<lparr>git = [''https://h.example/org/foo.git''], version = Null, branch = Str ''develop''\<rparr>
   \<and> afterColon ''origin:#develop'' = ''#develop''
   \<and> truthy (fragment (afterColon ''origin:#develop''))
   \<and> expandSrc demoLib ''/app'' None ''foo'' ''1.0.0''
     = Inr \<lparr>git = [], version = Str ''1.0.0'', branch = Null\<rparr>
   \<and> expandSrc demoLib ''/app'' (Some [''r'' \<mapsto> Arr [''h'']]) ''x''
         (''r:a'' @ [CHR 0x0A] @ ''b#c'')
     = Inr \<lparr>git = [''h/a.git''], version = Null, branch = Null\<rparr>
   \<and> \<not> truthy (fragment (afterColon (''r:a'' @ [CHR 0x0A] @ ''b#c'')))"
  using expandSrc_version_branch [OF expandSrc_git_semver_example]
    expandSrc_version_branch [OF expandSrc_alias_branch_example]
    expandSrc_version_branch [OF expandSrc_bare_version_example]
    expandSrc_version_branch [OF expandSrc_line_break_example]
    expandSrc_git_semver_example expandSrc_alias_branch_example expandSrc_bare_version_example
    expandSrc_line_break_example
  by (simp add: matchGit_def matchRest_def lineTerminator_def afterColon_def)

lemma getProp_absent:
  "obj key = None \<Longrightarrow> key \<notin> set objectPrototype \<Longrightarrow> getProp obj key = Undefined"
  by (simp add: getProp_def)

text \<open>
  C8, as the specification states it, fails: an alias that is present in the remotes
  table with an entry that is not a list, here \<open>null\<close>, is reported as an unknown
  remote, not as an invalid remotes entry.
\<close>

theorem expandSrc_null_entry_counterexample:
  "[''origin'' \<mapsto> Null] ''origin'' = Some Null
   \<and> \<not> isArray Null
   \<and> expandSrc demoLib ''/app'' (Some [''origin'' \<mapsto> Null]) ''foo'' ''origin:foo''
       = Inl (UnknownRemote ''origin'')
   \<and> expandSrc demoLib ''/app'' (Some [''origin'' \<mapsto> Null]) ''foo'' ''origin:foo''
       \<noteq> Inl InvalidRemotes"
  by (simp add: expandSrc_def matchGit_def splitRemote_def getProp_def)

text \<open>
  C8, amended. For every remotes table and every specifier of the form \<open>alias:rest\<close>
  that is not a git URL, the alias being the text before the first colon: if reading
  the alias from the table gives a falsy value (the
  alias is absent and is not a name that every object inherits, such as \<open>toString\<close>,
  or its entry is \<open>null\<close>, \<open>false\<close> or the empty string), expansion fails with an
  UnknownRemoteError, and within \<open>install\<close> the dependency fails with that error with
  the state and the trace unchanged, so before any tag-listing call for that
  dependency; if reading the alias gives a truthy value that is not an array,
  expansion fails with an InvalidRemotesError, again before any call.
\<close>

theorem expandSrc_remote_errors:
  assumes "matchGit src = None" and "CHR '':'' \<in> set src"
  shows "(\<not> truthy (getProp (map_of remotes) (aliasOf src)) \<longrightarrow>
            expandSrc lib prefix (Some (map_of remotes)) name src
              = Inl (UnknownRemote (aliasOf src))
          \<and> installDep lib ext root prefix (Some remotes) name src st
              = (Inl (UnknownRemote (aliasOf src)), st))
       \<and> (truthy (getProp (map_of remotes) (aliasOf src))
            \<and> \<not> isArray (getProp (map_of remotes) (aliasOf src)) \<longrightarrow>
            expandSrc lib prefix (Some (map_of remotes)) name src = Inl InvalidRemotes
          \<and> installDep lib ext root prefix (Some remotes) name src st = (Inl InvalidRemotes, st))"
  using assms
  by (cases "getProp (map_of remotes) (aliasOf src)")
    (simp_all add: expandSrc_def installDep_def splitRemote_def aliasOf_def Let_def
      split: prod.splits)

theorem expandSrc_remote_errors_witness:
  "matchGit ''mirror:foo#semver:1.0.0'' = None
   \<and> CHR '':'' \<in> set ''mirror:foo#semver:1.0.0''
   \<and> map_of [(''origin'', Str ''https://h.example/org'')] ''mirror'' = None
   \<and> ''mirror'' \<notin> set objectPrototype
   \<and> installDep demoLib (demoExt [] True (\<lambda>t h. True)) ''/app'' ''/app''
        (Some [(''origin'', Str ''https://h.example/org'')]) ''foo'' ''mirror:foo#semver:1.0.0''
        \<lparr>world = [], trace = []\<rparr>
       = (Inl (UnknownRemote ''mirror''), \<lparr>world = [], trace = []\<rparr>)
   \<and> matchGit ''origin:foo'' = None
   \<and> CHR '':'' \<in> set ''origin:foo''
   \<and> expandSrc demoLib ''/app'' (Some (map_of [(''origin'', Str ''https://h.example/org'')]))
        ''foo'' ''origin:foo'' = Inl InvalidRemotes"
proof -
  have git1: "matchGit ''mirror:foo#semver:1.0.0'' = None"
    and git2: "matchGit ''origin:foo'' = None"
    by (simp_all add: matchGit_def)
  have colon1: "CHR '':'' \<in> set ''mirror:foo#semver:1.0.0''"
    and colon2: "CHR '':'' \<in> set ''origin:foo''"
    by simp_all
  have proto: "''mirror'' \<notin> set objectPrototype"
    by (simp add: objectPrototype_def)
  from expandSrc_remote_errors [OF git1 colon1, of "[(''origin'', Str ''https://h.example/org'')]"
      demoLib "''/app''" "''foo''" "demoExt [] True (\<lambda>t h. True)" "''/app''"
      "\<lparr>world = [], trace = []\<rparr>"]
    expandSrc_remote_errors [OF git2 colon2, of "[(''origin'', Str ''https://h.example/org'')]"
      demoLib "''/app''" "''foo''" "demoExt [] True (\<lambda>t h. True)" "''/app''"
      "\<lparr>world = [], trace = []\<rparr>"]
    git1 git2 proto
  show ?thesis
    by (simp add: aliasOf_def getProp_def)
qed

section \<open>Properties of the merge of devDependencies\<close>

lemma map_of_replaceValue:
  "map_of entries key \<noteq> None \<Longrightarrow>
   map_of (replaceValue entries key v) = (map_of entries)(key \<mapsto> v)"
  by (induction entries key v rule: replaceValue.induct) (auto simp: fun_eq_iff)

lemma map_of_insertIndex:
  "map_of entries key = None \<Longrightarrow>
   map_of (insertIndex key v entries) = (map_of entries)(key \<mapsto> v)"
  by (induction key v entries rule: insertIndex.induct)
    (auto simp: fun_eq_iff split: if_splits)

lemma map_of_append_new:
  "map_of entries key = None \<Longrightarrow>
   map_of (entries @ [(key, v)]) = (map_of entries)(key \<mapsto> v)"
  by (rule ext) (auto simp: map_add_def split: option.splits)

lemma map_of_setProp: "map_of (setProp entries key v) = (map_of entries)(key \<mapsto> v)"
proof (cases "map_of entries key")
  case None
  show ?thesis
  proof (cases "isArrayIndex key")
    case True
    with None have "setProp entries key v = insertIndex key v entries"
      by (simp add: setProp_def)
    with map_of_insertIndex [OF None] show ?thesis
      by (simp only:)
  next
    case False
    with None have "setProp entries key v = entries @ [(key, v)]"
      by (simp add: setProp_def)
    with map_of_append_new [OF None] show ?thesis
      by (simp only:)
  qed
next
  case (Some x)
  then show ?thesis
    by (simp add: setProp_def map_of_replaceValue)
qed

lemma ownProps_setProp: "ownProps (setProp entries key v) = (ownProps entries)(key \<mapsto> Str v)"
  by (auto simp: ownProps_def map_of_setProp fun_eq_iff)

lemma getProp_update_other: "key \<noteq> k \<Longrightarrow> getProp (obj(k \<mapsto> v)) key = getProp obj key"
  by (simp add: getProp_def)

lemma getProp_ownProps_nonempty:
  "map_of deps name = Some src \<Longrightarrow> src \<noteq> [] \<Longrightarrow> truthy (getProp (ownProps deps) name)"
  by (simp add: getProp_def ownProps_def)

text \<open>
  C5, as the specification states it, fails: a direct dependency whose specifier is the
  empty string is present as a key, and the entry of \<open>devDependencies\<close> replaces it.
\<close>

theorem mergeDev_empty_specifier_counterexample:
  "map_of [(''a'', '''')] ''a'' = Some ''''
   \<and> mergeDev [(''a'', '''')] [(''a'', ''2.0.0'')] = [(''a'', ''2.0.0'')]"
  by (simp add: getProp_def ownProps_def setProp_def)

text \<open>
  C5, amended. For every manifest and every non-production install, an entry of
  \<open>devDependencies\<close> is merged into \<open>dependencies\<close> only if reading its name from
  \<open>dependencies\<close> gives a falsy value: the name is not a key of \<open>dependencies\<close> (and
  not a name that every object inherits, such as \<open>toString\<close>), or it is a key whose
  specifier is the empty string. A dev entry never replaces a non-empty specifier of a
  direct dependency. After the merge, a name reads as in \<open>dependencies\<close> when its
  value there is truthy, and otherwise as in \<open>devDependencies\<close> when it is a key there.
\<close>

theorem mergeDev_lookup:
  assumes "distinct (map fst dev)"
  shows "map_of (mergeDev deps dev) name =
     (if truthy (getProp (ownProps deps) name) then map_of deps name
      else (case map_of dev name of Some src \<Rightarrow> Some src | None \<Rightarrow> map_of deps name))"
  using assms
proof (induction dev arbitrary: deps)
  case Nil
  then show ?case by simp
next
  case (Cons entry dev)
  obtain n s where entry: "entry = (n, s)"
    by (cases entry)
  define deps1 where
    "deps1 = (if \<not> truthy (getProp (ownProps deps) n) then setProp deps n s else deps)"
  from Cons.prems entry have fresh: "map_of dev n = None" and rest: "distinct (map fst dev)"
    by (auto simp: map_of_eq_None_iff)
  have step: "mergeDev deps (entry # dev) = mergeDev deps1 dev"
    by (simp add: entry deps1_def)
  have ih: "map_of (mergeDev deps1 dev) name =
     (if truthy (getProp (ownProps deps1) name) then map_of deps1 name
      else (case map_of dev name of Some src \<Rightarrow> Some src | None \<Rightarrow> map_of deps1 name))"
    by (rule Cons.IH [OF rest])
  show ?case
  proof (cases "name = n")
    case True
    with ih fresh have "map_of (mergeDev deps1 dev) name = map_of deps1 n"
      by simp
    with True show ?thesis
      unfolding step by (simp add: entry deps1_def map_of_setProp)
  next
    case False
    then have "getProp (ownProps deps1) name = getProp (ownProps deps) name"
      and "map_of deps1 name = map_of deps name"
      by (simp_all add: deps1_def ownProps_setProp getProp_update_other map_of_setProp)
    with ih False show ?thesis
      unfolding step by (simp add: entry split: option.splits)
  qed
qed

theorem mergeDev_lookup_witness:
  "distinct (map fst [(''a'', ''2.0.0''), (''b'', ''1.0.0'')])
   \<and> mergeDev [(''a'', ''1.0.0'')] [(''a'', ''2.0.0''), (''b'', ''1.0.0'')]
       = [(''a'', ''1.0.0''), (''b'', ''1.0.0'')]
   \<and> map_of (mergeDev [(''a'', ''1.0.0'')] [(''a'', ''2.0.0''), (''b'', ''1.0.0'')]) ''a''
       = Some ''1.0.0''
   \<and> map_of (mergeDev [(''a'', ''1.0.0'')] [(''a'', ''2.0.0''), (''b'', ''1.0.0'')]) ''b''
       = Some ''1.0.0''"
proof -
  have d: "distinct (map fst [(''a'', ''2.0.0''), (''b'', ''1.0.0'')])"
    by simp
  have run: "mergeDev [(''a'', ''1.0.0'')] [(''a'', ''2.0.0''), (''b'', ''1.0.0'')]
       = [(''a'', ''1.0.0''), (''b'', ''1.0.0'')]"
    by (simp add: getProp_def ownProps_def objectPrototype_def setProp_def isArrayIndex_def
        isDigit_def)
  from mergeDev_lookup [OF d, of "[(''a'', ''1.0.0'')]" "''a''"]
    mergeDev_lookup [OF d, of "[(''a'', ''1.0.0'')]" "''b''"] d run
  show ?thesis
    by (simp add: getProp_def ownProps_def objectPrototype_def)
qed

section \<open>Properties of the install orchestrator\<close>

lemma locatePkg_no_walk:
  "locatePkg lib ext w dst False =
     Some (case readPkg ext w (path_join lib dst ''./package.json'') of
             Inr found \<Rightarrow> Inr (Some (dst, found))
           | Inl err \<Rightarrow> if err_code err \<noteq> Some ''ENOENT'' then Inl err else Inr None)"
  unfolding locatePkg_def
  by (subst locateLoop.simps) (simp split: sum.splits)

lemma installCalls_append: "installCalls (xs @ ys) = installCalls xs @ installCalls ys"
  by (induction xs rule: installCalls.induct) auto

lemma cloneTargets_append: "cloneTargets (xs @ ys) = cloneTargets xs @ cloneTargets ys"
  by (induction xs rule: cloneTargets.induct) auto

lemma callListTags_trace:
  "callListTags ext url st = (r, st1) \<Longrightarrow> trace st1 = trace st @ [ListTags url]"
  by (auto simp: callListTags_def split: prod.splits)

lemma callCloneRepo_trace:
  "callCloneRepo ext tag url dst st = (r, st1) \<Longrightarrow>
   trace st1 = trace st @ [CloneRepo tag url dst]"
  by (auto simp: callCloneRepo_def split: prod.splits)

lemma callVerifyRepo_trace:
  "callVerifyRepo ext tag hash dst st = (r, st1) \<Longrightarrow>
   trace st1 = trace st @ [VerifyRepo tag hash dst]"
  by (auto simp: callVerifyRepo_def split: prod.splits)

lemma callRebuild_trace:
  "callRebuild ext dst st = (r, st1) \<Longrightarrow> trace st1 = trace st @ [Rebuild dst]"
  by (auto simp: callRebuild_def split: prod.splits)

text \<open>
  The loop over the hosts only adds events to the trace; none of them is a call of
  \<open>install\<close>, and every clone among them goes to the destination of the loop.
\<close>

lemma tryHosts_trace:
  "tryHosts lib ext v dst urls st = (r, st') \<Longrightarrow>
   \<exists>new. trace st' = trace st @ new \<and> installCalls new = []
     \<and> set (cloneTargets new) \<subseteq> {dst}"
proof (induction urls arbitrary: st)
  case Nil
  then show ?case by simp
next
  case (Cons url urls)
  obtain r1 st1 where listed: "callListTags ext url st = (r1, st1)"
    by (cases "callListTags ext url st")
  note t1 = callListTags_trace [OF listed]
  show ?case
  proof (cases r1)
    case (Inl err)
    with Cons.prems listed t1 show ?thesis by auto
  next
    case (Inr tags)
    show ?thesis
    proof (cases "matchTag (semver_satisfies lib) (map fst tags) v")
      case None
      with Cons.prems listed Inr have "tryHosts lib ext v dst urls st1 = (r, st')"
        by simp
      from Cons.IH [OF this] t1 show ?thesis by auto
    next
      case (Some tag)
      show ?thesis
      proof (cases "map_of tags tag")
        case None
        with Cons.prems listed Inr Some t1 show ?thesis by auto
      next
        case info: (Some info)
        obtain r2 st2 where cloning: "callCloneRepo ext tag url dst st1 = (r2, st2)"
          by (cases "callCloneRepo ext tag url dst st1")
        note t2 = callCloneRepo_trace [OF cloning]
        show ?thesis
        proof (cases r2)
          case (Inl err)
          with Cons.prems listed Inr Some info cloning t1 t2 show ?thesis by auto
        next
          case cloned: (Inr success0)
          obtain r3 st3 where verifying:
            "(if annotated info then callVerifyRepo ext (Some tag) None dst st2
              else callVerifyRepo ext None (Some (commit info)) dst st2) = (r3, st3)"
            by (cases "if annotated info then callVerifyRepo ext (Some tag) None dst st2
              else callVerifyRepo ext None (Some (commit info)) dst st2")
          then obtain t h where t3: "trace st3 = trace st2 @ [VerifyRepo t h dst]"
            by (auto dest: callVerifyRepo_trace split: if_splits)
          show ?thesis
          proof (cases r3)
            case (Inl err)
            with Cons.prems listed Inr Some info cloning cloned verifying t1 t2 t3
            show ?thesis by auto
          next
            case verified: (Inr success)
            show ?thesis
            proof (cases success)
              case True
              with Cons.prems listed Inr Some info cloning cloned verifying verified t1 t2 t3
              show ?thesis by auto
            next
              case False
              with Cons.prems listed Inr Some info cloning cloned verifying verified
              have "tryHosts lib ext v dst urls st3 = (r, st')"
                by simp
              from Cons.IH [OF this] t1 t2 t3 show ?thesis by auto
            qed
          qed
        qed
      qed
    qed
  qed
qed

lemma tryHosts_Some: "tryHosts lib ext v dst urls st = (Inr (Some p), st') \<Longrightarrow> p = dst"
  by (induction urls arbitrary: st)
    (auto split: prod.splits sum.splits option.splits if_splits)

lemma installDep_trace:
  "installDep lib ext root prefix remotes name src st = (r, st') \<Longrightarrow>
   \<exists>new. trace st' = trace st @ new \<and> installCalls new = []"
  by (auto simp: installDep_def Let_def split: sum.splits option.splits if_splits
      dest: tryHosts_trace)

lemma installDeps_trace:
  "installDeps lib ext root prefix remotes deps installed st = (r, st') \<Longrightarrow>
   \<exists>new. trace st' = trace st @ new \<and> installCalls new = []"
proof (induction deps arbitrary: installed st)
  case Nil
  then show ?case by simp
next
  case (Cons entry deps)
  obtain name src where entry: "entry = (name, src)"
    by (cases entry)
  obtain r1 st1 where one: "installDep lib ext root prefix remotes name src st = (r1, st1)"
    by (cases "installDep lib ext root prefix remotes name src st")
  from installDep_trace [OF one] obtain new1
    where new1: "trace st1 = trace st @ new1" "installCalls new1 = []"
    by blast
  show ?case
  proof (cases r1)
    case (Inl err)
    with Cons.prems entry one new1 show ?thesis by auto
  next
    case (Inr pushed)
    with Cons.prems entry one obtain installed1
      where "installDeps lib ext root prefix remotes deps installed1 st1 = (r, st')"
      by (cases pushed) auto
    from Cons.IH [OF this] new1 show ?thesis
      by (auto simp: installCalls_append)
  qed
qed

lemma resolveDeps_trace:
  "resolveDeps lib ext dst prefix production st = Some (r, st') \<Longrightarrow>
   \<exists>new. trace st' = trace st @ new \<and> installCalls new = []"
  by (auto simp: resolveDeps_def Let_def
      split: option.splits sum.splits prod.splits dest: installDeps_trace)

lemma resolveDeps_prefix:
  "resolveDeps lib ext dst prefix production st = Some (Inr (Some (root, prefix1, installed)), st1) \<Longrightarrow>
   root = dst \<and> prefix1 = (case prefix of None \<Rightarrow> dst | Some given \<Rightarrow> given)"
  by (auto simp: resolveDeps_def locatePkg_no_walk Let_def
      split: option.splits sum.splits prod.splits if_splits)

lemma buildAddon_trace:
  "buildAddon lib ext root st = (r, st') \<Longrightarrow>
   \<exists>new. trace st' = trace st @ new \<and> installCalls new = []"
  by (auto simp: buildAddon_def Let_def split: sum.splits prod.splits if_splits
      dest: callRebuild_trace)

lemma install_trace:
  "install n lib ext dst prefix production st = Some (r, st') \<Longrightarrow>
   \<exists>body. trace st' = trace st @ [Install dst prefix body]"
  by (cases n) (auto split: option.splits sum.splits prod.splits)

lemma installEach_calls:
  "installEach n lib ext prefix paths st = Some (r, st') \<Longrightarrow>
   \<exists>new k. trace st' = trace st @ new \<and> k \<le> length paths
     \<and> installCalls new = map (\<lambda>nextDst. (nextDst, Some prefix)) (take k paths)
     \<and> (r = Inr () \<longrightarrow> k = length paths)"
proof (induction paths arbitrary: st)
  case Nil
  then show ?case by simp
next
  case (Cons nextDst rest)
  from Cons.prems obtain r1 st1
    where call: "install n lib ext nextDst (Some prefix) False st = Some (r1, st1)"
    by (auto split: option.splits)
  from install_trace [OF call] obtain body
    where body: "trace st1 = trace st @ [Install nextDst (Some prefix) body]"
    by blast
  show ?case
  proof (cases r1)
    case (Inl err)
    with Cons.prems call have "r = Inl err" and "st' = st1"
      by simp_all
    with body have "trace st' = trace st @ [Install nextDst (Some prefix) body]
        \<and> Suc 0 \<le> length (nextDst # rest)
        \<and> installCalls [Install nextDst (Some prefix) body]
            = map (\<lambda>nextDst. (nextDst, Some prefix)) (take (Suc 0) (nextDst # rest))
        \<and> (r = Inr () \<longrightarrow> Suc 0 = length (nextDst # rest))"
      by simp
    then show ?thesis by blast
  next
    case (Inr ok)
    with Cons.prems call have "installEach n lib ext prefix rest st1 = Some (r, st')"
      by simp
    from Cons.IH [OF this] obtain new k
      where new: "trace st' = trace st1 @ new" "k \<le> length rest"
        "installCalls new = map (\<lambda>nextDst. (nextDst, Some prefix)) (take k rest)"
        "r = Inr () \<longrightarrow> k = length rest"
      by blast
    with body have "trace st' = trace st @ (Install nextDst (Some prefix) body # new)
        \<and> Suc k \<le> length (nextDst # rest)
        \<and> installCalls (Install nextDst (Some prefix) body # new)
            = map (\<lambda>nextDst. (nextDst, Some prefix)) (take (Suc k) (nextDst # rest))
        \<and> (r = Inr () \<longrightarrow> Suc k = length (nextDst # rest))"
      by simp
    then show ?thesis by blast
  qed
qed

lemmas demo_defs = demoExt_def demoLib_def demoJoin_def noent_def leaf_def exactVersion_def
  app_def app2_def hostB_def hostC_def hostOld_def hostLight_def

lemmas run_defs = resolveDeps_def locatePkg_no_walk installDep_def readExisting_def
  buildAddon_def callListTags_def callCloneRepo_def callVerifyRepo_def callRebuild_def
  expandSrc_def matchGit_def matchRest_def lineTerminator_def element_def findVersion_def
  matchTag_def compareTags_def Let_def

text \<open>
  C2, as the specification states it, fails: the only candidate host of \<open>b\<close> offers
  the tag \<open>v0.9.0\<close>, which does not satisfy the range \<open>1.0.0\<close>, and the install call
  returns normally after listing the tags, with nothing cloned.
\<close>

theorem install_no_tag_counterexample:
  "expandSrc demoLib ''/app'' None ''b'' ''git://h/b.git#semver:1.0.0''
     = Inr \<lparr>git = [''git://h/b.git''], version = Str ''1.0.0'', branch = Null\<rparr>
   \<and> matchTag exactVersion [''v0.9.0''] (Str ''1.0.0'') = None
   \<and> install 1 demoLib (demoExt [hostOld] True (\<lambda>t h. True)) ''/app'' None False
        \<lparr>world = [(''/app/package.json'', app)], trace = []\<rparr>
     = Some (Inr (), \<lparr>world = [(''/app/package.json'', app)],
               trace = [Install ''/app'' None [ListTags ''git://h/b.git'']]\<rparr>)"
  by (simp add: demo_defs run_defs)

text \<open>
  C2, amended. For every dependency whose candidate host list is not empty and whose
  flat path holds no manifest that satisfies the range: if the tag listing of every
  candidate host returns and no host offers a tag whose stripped version satisfies the
  range, no error is raised for the dependency. The tags of each host are listed, in
  order, nothing is cloned, verified or recorded as installed, and the loop goes on
  with the next dependency; the dependency is left uninstalled.
\<close>

theorem installDep_without_matching_tag:
  assumes expand: "expandSrc lib prefix (map_option map_of remotes) name src = Inr r"
    and hosts: "git r \<noteq> []"
    and probe: "readExisting ext (world st)
                  (path_join lib (path_join lib prefix (''./node_modules/'' @ name)) ''./package.json'')
                  = Inr existing"
    and conflict: "\<forall>p. existing = Some p \<longrightarrow> \<not> semver_satisfies lib (pkg_version p) (version r)"
    and notags: "\<forall>url \<in> set (git r). \<forall>w. \<exists>tags. fst (listTags ext w url) = Inr tags
                   \<and> matchTag (semver_satisfies lib) (map fst tags) (version r) = None"
  shows "\<exists>st'. installDep lib ext root prefix remotes name src st = (Inr None, st')
           \<and> trace st' = trace st @ map ListTags (git r)
           \<and> installDeps lib ext root prefix remotes ((name, src) # rest) installed st
               = installDeps lib ext root prefix remotes rest installed st'"
proof -
  have loop: "\<exists>st'. tryHosts lib ext (version r) dst urls st0 = (Inr None, st')
           \<and> trace st' = trace st0 @ map ListTags urls"
    if "set urls \<subseteq> set (git r)" for dst urls and st0 :: "'a state"
    using that
  proof (induction urls arbitrary: st0)
    case Nil
    then show ?case by simp
  next
    case (Cons url urls)
    from Cons.prems notags obtain tags
      where tags: "fst (listTags ext (world st0) url) = Inr tags"
        "matchTag (semver_satisfies lib) (map fst tags) (version r) = None"
      by (meson list.set_intros(1) subsetD)
    obtain w1 where w1: "listTags ext (world st0) url = (Inr tags, w1)"
      using tags(1) by (cases "listTags ext (world st0) url") auto
    from Cons.prems have "set urls \<subseteq> set (git r)"
      by simp
    from Cons.IH [OF this, of "\<lparr>world = w1, trace = trace st0 @ [ListTags url]\<rparr>"] w1 tags(2)
    show ?case
      by (simp add: callListTags_def)
  qed
  from loop [of "git r"] expand hosts probe conflict
  obtain st' where "installDep lib ext root prefix remotes name src st = (Inr None, st')"
    "trace st' = trace st @ map ListTags (git r)"
    by (cases existing) (fastforce simp: installDep_def Let_def)+
  then show ?thesis
    by auto
qed

theorem installDep_without_matching_tag_witness:
  "installDep demoLib (demoExt [hostOld] True (\<lambda>t h. True)) ''/app'' ''/app'' None
       ''b'' ''git://h/b.git#semver:1.0.0'' \<lparr>world = [(''/app/package.json'', app)], trace = []\<rparr>
     = (Inr None, \<lparr>world = [(''/app/package.json'', app)], trace = [ListTags ''git://h/b.git'']\<rparr>)"
proof -
  let ?ext = "demoExt [hostOld] True (\<lambda>t h. True)"
  let ?st = "\<lparr>world = [(''/app/package.json'', app)], trace = []\<rparr>"
  let ?r = "\<lparr>git = [''git://h/b.git''], version = Str ''1.0.0'', branch = Null\<rparr>"
  have expand: "expandSrc demoLib ''/app'' (map_option map_of None) ''b''
      ''git://h/b.git#semver:1.0.0'' = Inr ?r"
    by (simp add: run_defs)
  have hosts: "git ?r \<noteq> []"
    by simp
  have probe: "readExisting ?ext (world ?st)
      (path_join demoLib (path_join demoLib ''/app'' (''./node_modules/'' @ ''b'')) ''./package.json'')
      = Inr None"
    by (simp add: demo_defs readExisting_def)
  have conflict: "\<forall>p. (None :: pkg option) = Some p \<longrightarrow>
      \<not> semver_satisfies demoLib (pkg_version p) (version ?r)"
    by simp
  have notags: "\<forall>url \<in> set (git ?r). \<forall>w. \<exists>tags. fst (listTags ?ext w url) = Inr tags
      \<and> matchTag (semver_satisfies demoLib) (map fst tags) (version ?r) = None"
    by (simp add: demo_defs matchTag_def compareTags_def)
  from installDep_without_matching_tag [where root = "''/app''" and rest = "[]"
      and installed = "[]", OF expand hosts probe conflict notags]
  obtain st' where "installDep demoLib ?ext ''/app'' ''/app'' None ''b''
      ''git://h/b.git#semver:1.0.0'' ?st = (Inr None, st')"
    by blast
  then show ?thesis
    by (simp add: demo_defs run_defs)
qed

text \<open>
  C3, as the specification states it, fails: in a top-level call of \<open>install\<close> the
  prefix is the directory of the package itself, so the nested path is the flat path.
  Here the flat path \<open>/app/node_modules/b\<close> holds version \<open>0.9.0\<close>, the range is
  \<open>1.0.0\<close>, and the clone goes to \<open>/app/node_modules/b\<close>.
\<close>

theorem install_conflict_top_level_counterexample:
  "path_join demoLib ''/app'' ''./node_modules/b'' = ''/app/node_modules/b''
   \<and> install 2 demoLib (demoExt [hostB] True (\<lambda>t h. True)) ''/app'' None False
        \<lparr>world = [(''/app/package.json'', app),
                   (''/app/node_modules/b/package.json'', leaf ''0.9.0'')],
          trace = []\<rparr>
     = Some (Inr (),
         \<lparr>world = [(''/app/node_modules/b/package.json'', leaf ''1.0.0''),
                   (''/app/package.json'', app),
                   (''/app/node_modules/b/package.json'', leaf ''0.9.0'')],
           trace = [Install ''/app'' None
                     [ListTags ''git://h/b.git'',
                      CloneRepo ''v1.0.0'' ''git://h/b.git'' ''/app/node_modules/b'',
                      VerifyRepo (Some ''v1.0.0'') None ''/app/node_modules/b'',
                      Install ''/app/node_modules/b'' (Some ''/app'') []]]\<rparr>)"
  by (simp add: demo_defs run_defs numeral_2_eq_2)

text \<open>
  C3, amended. For every install call in which the flat path
  \<open>prefix/node_modules/name\<close> holds a manifest whose version does not satisfy the
  resolved range, every clone made for that dependency goes to
  \<open>path.join(root, './node_modules/' + name)\<close>, the nested path under the directory
  \<open>root\<close> of the current package, and that is the only path that can be recorded as
  installed. The nested path differs from the flat path only when \<open>root\<close> differs
  from \<open>prefix\<close>; in a top-level call, where \<open>prefix\<close> is \<open>root\<close>, it is the flat path.
\<close>

theorem installDep_conflict_destination:
  assumes expand: "expandSrc lib prefix (map_option map_of remotes) name src = Inr r"
    and found: "readPkg ext (world st)
                  (path_join lib (path_join lib prefix (''./node_modules/'' @ name)) ''./package.json'')
                  = Inr existingPkg"
    and conflict: "\<not> semver_satisfies lib (pkg_version existingPkg) (version r)"
    and run: "installDep lib ext root prefix remotes name src st = (res, st')"
  shows "\<exists>new. trace st' = trace st @ new
           \<and> set (cloneTargets new) \<subseteq> {path_join lib root (''./node_modules/'' @ name)}
           \<and> (\<forall>p. res = Inr (Some p) \<longrightarrow> p = path_join lib root (''./node_modules/'' @ name))"
proof (cases "git r = []")
  case True
  with expand found conflict
  have "installDep lib ext root prefix remotes name src st = (Inl (UnresolvableRemotes name), st)"
    by (simp add: installDep_def readExisting_def Let_def)
  with run have "res = Inl (UnresolvableRemotes name)" and "st' = st"
    by simp_all
  then show ?thesis
    by simp
next
  case False
  with expand found conflict
  have "installDep lib ext root prefix remotes name src st
      = tryHosts lib ext (version r) (path_join lib root (''./node_modules/'' @ name)) (git r) st"
    by (simp add: installDep_def readExisting_def Let_def)
  with run
  have "tryHosts lib ext (version r) (path_join lib root (''./node_modules/'' @ name)) (git r) st
      = (res, st')"
    by simp
  then have hosts: "tryHosts lib ext (version r) (path_join lib root (''./node_modules/'' @ name)) (git r) st
      = (res, st')" .
  from tryHosts_trace [OF hosts] obtain new
    where "trace st' = trace st @ new"
      and "set (cloneTargets new) \<subseteq> {path_join lib root (''./node_modules/'' @ name)}"
    by blast
  moreover have "\<forall>p. res = Inr (Some p) \<longrightarrow> p = path_join lib root (''./node_modules/'' @ name)"
    using hosts tryHosts_Some by fastforce
  ultimately show ?thesis
    by blast
qed


theorem installDep_conflict_destination_witness:
  "installDep demoLib (demoExt [hostB] True (\<lambda>t h. True)) ''/app/node_modules/c'' ''/app'' None
       ''b'' ''git://h/b.git#semver:1.0.0''
       \<lparr>world = [(''/app/node_modules/b/package.json'', leaf ''0.9.0'')], trace = []\<rparr>
     = (Inr (Some ''/app/node_modules/c/node_modules/b''),
        \<lparr>world = [(''/app/node_modules/c/node_modules/b/package.json'', leaf ''1.0.0''),
                  (''/app/node_modules/b/package.json'', leaf ''0.9.0'')],
          trace = [ListTags ''git://h/b.git'',
                   CloneRepo ''v1.0.0'' ''git://h/b.git'' ''/app/node_modules/c/node_modules/b'',
                   VerifyRepo (Some ''v1.0.0'') None ''/app/node_modules/c/node_modules/b'']\<rparr>)
   \<and> cloneTargets [ListTags ''git://h/b.git'',
          CloneRepo ''v1.0.0'' ''git://h/b.git'' ''/app/node_modules/c/node_modules/b'',
          VerifyRepo (Some ''v1.0.0'') None ''/app/node_modules/c/node_modules/b'']
       = [path_join demoLib ''/app/node_modules/c'' (''./node_modules/'' @ ''b'')]"
proof -
  let ?ext = "demoExt [hostB] True (\<lambda>t h. True)"
  let ?st = "\<lparr>world = [(''/app/node_modules/b/package.json'', leaf ''0.9.0'')], trace = []\<rparr>"
  let ?r = "\<lparr>git = [''git://h/b.git''], version = Str ''1.0.0'', branch = Null\<rparr>"
  let ?st' = "\<lparr>world = [(''/app/node_modules/c/node_modules/b/package.json'', leaf ''1.0.0''),
                  (''/app/node_modules/b/package.json'', leaf ''0.9.0'')],
          trace = [ListTags ''git://h/b.git'',
                   CloneRepo ''v1.0.0'' ''git://h/b.git'' ''/app/node_modules/c/node_modules/b'',
                   VerifyRepo (Some ''v1.0.0'') None ''/app/node_modules/c/node_modules/b'']\<rparr>"
  have expand: "expandSrc demoLib ''/app'' (map_option map_of None) ''b''
      ''git://h/b.git#semver:1.0.0'' = Inr ?r"
    by (simp add: run_defs)
  have found: "readPkg ?ext (world ?st)
      (path_join demoLib (path_join demoLib ''/app'' (''./node_modules/'' @ ''b'')) ''./package.json'')
      = Inr (leaf ''0.9.0'')"
    by (simp add: demo_defs)
  have conflict: "\<not> semver_satisfies demoLib (pkg_version (leaf ''0.9.0'')) (version ?r)"
    by (simp add: demo_defs)
  have run: "installDep demoLib ?ext ''/app/node_modules/c'' ''/app'' None ''b''
      ''git://h/b.git#semver:1.0.0'' ?st = (Inr (Some ''/app/node_modules/c/node_modules/b''), ?st')"
    by (simp add: demo_defs run_defs)
  from installDep_conflict_destination [OF expand found conflict run] run
  show ?thesis
    by (simp add: demo_defs)
qed

lemma installEach_eachInOrder:
  "installEach n lib ext prefix paths st
     = eachInOrder (\<lambda>nextDst. install n lib ext nextDst (Some prefix) False) paths st"
  by (induction paths arbitrary: st)
    (auto simp: andThen_def split: option.splits sum.splits prod.splits)


lemma install_after_loop:
  assumes loop: "resolveDeps lib ext dst prefix production (st\<lparr>trace := []\<rparr>)
                   = Some (Inr (Some (root, prefix1, installed)), st1)"
  shows "install (Suc n) lib ext dst prefix production st =
           map_option (asCall st dst prefix)
             (andThen (eachInOrder (\<lambda>nextDst. install n lib ext nextDst (Some prefix1) False)
                         installed st1)
                (\<lambda>st2. Some (buildAddon lib ext root st2)))"
  using loop
  by (simp add: installEach_eachInOrder andThen_def asCall_def
      split: option.splits sum.splits prod.splits)

lemma installEach_events:
  "installEach n lib ext prefix paths st = Some (r, st') \<Longrightarrow>
   \<exists>bodies. length bodies \<le> length paths
     \<and> (r = Inr () \<longrightarrow> length bodies = length paths)
     \<and> trace st' = trace st
          @ map (\<lambda>(nextDst, body). Install nextDst (Some prefix) body) (zip paths bodies)"
proof (induction paths arbitrary: st)
  case Nil
  then show ?case by simp
next
  case (Cons nextDst rest)
  from Cons.prems obtain r1 st1
    where call: "install n lib ext nextDst (Some prefix) False st = Some (r1, st1)"
    by (auto split: option.splits)
  from install_trace [OF call] obtain body
    where body: "trace st1 = trace st @ [Install nextDst (Some prefix) body]"
    by blast
  show ?case
  proof (cases r1)
    case (Inl err)
    with Cons.prems call have "r = Inl err" and "st' = st1"
      by simp_all
    with body have "length [body] \<le> length (nextDst # rest)
        \<and> (r = Inr () \<longrightarrow> length [body] = length (nextDst # rest))
        \<and> trace st' = trace st
             @ map (\<lambda>(nextDst, body). Install nextDst (Some prefix) body)
                 (zip (nextDst # rest) [body])"
      by simp
    then show ?thesis by blast
  next
    case (Inr ok)
    with Cons.prems call have "installEach n lib ext prefix rest st1 = Some (r, st')"
      by simp
    from Cons.IH [OF this] obtain bodies
      where bodies: "length bodies \<le> length rest"
        "r = Inr () \<longrightarrow> length bodies = length rest"
        "trace st' = trace st1
           @ map (\<lambda>(nextDst, body). Install nextDst (Some prefix) body) (zip rest bodies)"
      by blast
    with body have "length (body # bodies) \<le> length (nextDst # rest)
        \<and> (r = Inr () \<longrightarrow> length (body # bodies) = length (nextDst # rest))
        \<and> trace st' = trace st
             @ map (\<lambda>(nextDst, body). Install nextDst (Some prefix) body)
                 (zip (nextDst # rest) (body # bodies))"
      by simp
    then show ?thesis by blast
  qed
qed

text \<open>
  C9. For every install call that reaches the end of the loop over its dependencies
  with the list \<open>installed\<close>, in the state \<open>st1\<close> that the loop left: the rest of the
  call is the recursive calls \<open>install(nextDst, prefix)\<close> on the paths of \<open>installed\<close>,
  in the order in which they were recorded, each one starting where the one before
  ended and the first one starting from \<open>st1\<close>, so after the loop, followed by the
  check for a native addon. The prefix passed to each of them is the prefix in force
  in the caller (the prefix it was given or, in a top-level call, its own directory),
  never the nested path. The call returns what this sequence returns, it does not
  return when one of the recursive calls does not, and a recursive call that fails
  ends it. In the trace, the events of the body are those of the loop, which hold no
  call of \<open>install\<close>, then one call for each path reached, then those of the addon.
\<close>

theorem install_recursion_order:
  assumes loop: "resolveDeps lib ext dst prefix production (st\<lparr>trace := []\<rparr>)
                   = Some (Inr (Some (root, prefix1, installed)), st1)"
  shows "root = dst
    \<and> prefix1 = (case prefix of None \<Rightarrow> dst | Some given \<Rightarrow> given)
    \<and> installCalls (trace st1) = []
    \<and> install (Suc n) lib ext dst prefix production st =
        map_option (asCall st dst prefix)
          (andThen (eachInOrder (\<lambda>nextDst. install n lib ext nextDst (Some prefix1) False)
                      installed st1)
             (\<lambda>st2. Some (buildAddon lib ext root st2)))
    \<and> (\<forall>r st'. install (Suc n) lib ext dst prefix production st = Some (r, st') \<longrightarrow>
          (\<exists>bodies addon. length bodies \<le> length installed
             \<and> (r = Inr () \<longrightarrow> length bodies = length installed)
             \<and> installCalls addon = []
             \<and> trace st' = trace st
                  @ [Install dst prefix
                       (trace st1
                        @ map (\<lambda>(nextDst, body). Install nextDst (Some prefix1) body)
                            (zip installed bodies)
                        @ addon)]))"
proof -
  from resolveDeps_prefix [OF loop]
  have place: "root = dst" "prefix1 = (case prefix of None \<Rightarrow> dst | Some given \<Rightarrow> given)"
    by simp_all
  from resolveDeps_trace [OF loop] have quiet: "installCalls (trace st1) = []"
    by auto
  have events: "\<exists>bodies addon. length bodies \<le> length installed
             \<and> (r = Inr () \<longrightarrow> length bodies = length installed)
             \<and> installCalls addon = []
             \<and> trace st' = trace st
                  @ [Install dst prefix
                       (trace st1
                        @ map (\<lambda>(nextDst, body). Install nextDst (Some prefix1) body)
                            (zip installed bodies)
                        @ addon)]"
    if run: "install (Suc n) lib ext dst prefix production st = Some (r, st')" for r st'
  proof -
    from run loop obtain r2 st2
      where each: "installEach n lib ext prefix1 installed st1 = Some (r2, st2)"
      by (auto split: option.splits)
    from installEach_events [OF each] obtain bodies
      where bodies: "length bodies \<le> length installed"
        "r2 = Inr () \<longrightarrow> length bodies = length installed"
        "trace st2 = trace st1
           @ map (\<lambda>(nextDst, body). Install nextDst (Some prefix1) body) (zip installed bodies)"
      by blast
    show ?thesis
    proof (cases r2)
      case (Inl err)
      with run loop each
      have "Some (r, st') = Some (Inl err, st2\<lparr>trace := trace st @ [Install dst prefix (trace st2)]\<rparr>)"
        by simp
      then have "r = Inl err" and "st' = st2\<lparr>trace := trace st @ [Install dst prefix (trace st2)]\<rparr>"
        by simp_all
      then have "r = Inl err" and "trace st' = trace st @ [Install dst prefix (trace st2 @ [])]"
        by simp_all
      with bodies have "length bodies \<le> length installed
             \<and> (r = Inr () \<longrightarrow> length bodies = length installed)
             \<and> installCalls [] = []
             \<and> trace st' = trace st
                  @ [Install dst prefix
                       (trace st1
                        @ map (\<lambda>(nextDst, body). Install nextDst (Some prefix1) body)
                            (zip installed bodies)
                        @ [])]"
        by simp
      then show ?thesis by blast
    next
      case (Inr ok)
      obtain r3 st3 where addon: "buildAddon lib ext root st2 = (r3, st3)"
        by (cases "buildAddon lib ext root st2")
      from buildAddon_trace [OF addon] obtain new3
        where new3: "trace st3 = trace st2 @ new3" "installCalls new3 = []"
        by blast
      from run loop each Inr addon
      have "Some (r, st') = Some (r3, st3\<lparr>trace := trace st @ [Install dst prefix (trace st3)]\<rparr>)"
        by simp
      then have "st' = st3\<lparr>trace := trace st @ [Install dst prefix (trace st3)]\<rparr>"
        by simp
      then have "trace st' = trace st @ [Install dst prefix (trace st3)]"
        by simp
      with bodies new3 Inr have "length bodies \<le> length installed
             \<and> (r = Inr () \<longrightarrow> length bodies = length installed)
             \<and> installCalls new3 = []
             \<and> trace st' = trace st
                  @ [Install dst prefix
                       (trace st1
                        @ map (\<lambda>(nextDst, body). Install nextDst (Some prefix1) body)
                            (zip installed bodies)
                        @ new3)]"
        by simp
      then show ?thesis by blast
    qed
  qed
  from place quiet install_after_loop [OF loop] events show ?thesis
    by blast
qed

lemmas deep_defs = libB_def hostB2_def hostD_def mirrors_def brokenExt_def appMirror_def
  andThen_def asCall_def getProp_def expandHost_def splitRemote_def

theorem install_recursion_order_witness:
  "install 3 demoLib (demoExt [hostB2, hostC, hostD] True (\<lambda>t h. True)) ''/app'' None False
       \<lparr>world = [(''/app/package.json'', app2)], trace = []\<rparr>
     = Some (Inr (),
         \<lparr>world = [(''/app/node_modules/d/package.json'', leaf ''3.0.0''),
                   (''/app/node_modules/c/package.json'', leaf ''2.0.0''),
                   (''/app/node_modules/b/package.json'', libB),
                   (''/app/package.json'', app2)],
           trace = [Install ''/app'' None
                     [ListTags ''git://h/b.git'',
                      CloneRepo ''v1.0.0'' ''git://h/b.git'' ''/app/node_modules/b'',
                      VerifyRepo (Some ''v1.0.0'') None ''/app/node_modules/b'',
                      ListTags ''git://h/c.git'',
                      CloneRepo ''v2.0.0'' ''git://h/c.git'' ''/app/node_modules/c'',
                      VerifyRepo (Some ''v2.0.0'') None ''/app/node_modules/c'',
                      Install ''/app/node_modules/b'' (Some ''/app'')
                        [ListTags ''git://h/d.git'',
                         CloneRepo ''v3.0.0'' ''git://h/d.git'' ''/app/node_modules/d'',
                         VerifyRepo (Some ''v3.0.0'') None ''/app/node_modules/d'',
                         Install ''/app/node_modules/d'' (Some ''/app'') []],
                      Install ''/app/node_modules/c'' (Some ''/app'') []]]\<rparr>)"
proof -
  let ?ext = "demoExt [hostB2, hostC, hostD] True (\<lambda>t h. True)"
  let ?st = "\<lparr>world = [(''/app/package.json'', app2)], trace = []\<rparr>"
  have loop: "resolveDeps demoLib ?ext ''/app'' None False (?st\<lparr>trace := []\<rparr>)
      = Some (Inr (Some (''/app'', ''/app'', [''/app/node_modules/b'', ''/app/node_modules/c''])),
          \<lparr>world = [(''/app/node_modules/c/package.json'', leaf ''2.0.0''),
                    (''/app/node_modules/b/package.json'', libB),
                    (''/app/package.json'', app2)],
            trace = [ListTags ''git://h/b.git'',
                     CloneRepo ''v1.0.0'' ''git://h/b.git'' ''/app/node_modules/b'',
                     VerifyRepo (Some ''v1.0.0'') None ''/app/node_modules/b'',
                     ListTags ''git://h/c.git'',
                     CloneRepo ''v2.0.0'' ''git://h/c.git'' ''/app/node_modules/c'',
                     VerifyRepo (Some ''v2.0.0'') None ''/app/node_modules/c'']\<rparr>)"
    by (simp add: demo_defs run_defs deep_defs)
  have inner: "install 2 demoLib ?ext ''/app/node_modules/b'' (Some ''/app'') False
        \<lparr>world = [(''/app/node_modules/c/package.json'', leaf ''2.0.0''),
                  (''/app/node_modules/b/package.json'', libB),
                  (''/app/package.json'', app2)],
          trace = tr\<rparr>
      = Some (Inr (),
          \<lparr>world = [(''/app/node_modules/d/package.json'', leaf ''3.0.0''),
                    (''/app/node_modules/c/package.json'', leaf ''2.0.0''),
                    (''/app/node_modules/b/package.json'', libB),
                    (''/app/package.json'', app2)],
            trace = tr @ [Install ''/app/node_modules/b'' (Some ''/app'')
                        [ListTags ''git://h/d.git'',
                         CloneRepo ''v3.0.0'' ''git://h/d.git'' ''/app/node_modules/d'',
                         VerifyRepo (Some ''v3.0.0'') None ''/app/node_modules/d'',
                         Install ''/app/node_modules/d'' (Some ''/app'') []]]\<rparr>)" for tr
    by (simp add: demo_defs run_defs deep_defs numeral_2_eq_2)
  have last: "install 2 demoLib ?ext ''/app/node_modules/c'' (Some ''/app'') False
        \<lparr>world = [(''/app/node_modules/d/package.json'', leaf ''3.0.0''),
                  (''/app/node_modules/c/package.json'', leaf ''2.0.0''),
                  (''/app/node_modules/b/package.json'', libB),
                  (''/app/package.json'', app2)],
          trace = tr\<rparr>
      = Some (Inr (),
          \<lparr>world = [(''/app/node_modules/d/package.json'', leaf ''3.0.0''),
                    (''/app/node_modules/c/package.json'', leaf ''2.0.0''),
                    (''/app/node_modules/b/package.json'', libB),
                    (''/app/package.json'', app2)],
            trace = tr @ [Install ''/app/node_modules/c'' (Some ''/app'') []]\<rparr>)" for tr
    by (simp add: demo_defs run_defs deep_defs numeral_2_eq_2)
  have addon: "buildAddon demoLib ?ext ''/app'' st2 = (Inr (), st2)" for st2
    by (simp add: buildAddon_def demo_defs)
  have "install (Suc 2) demoLib ?ext ''/app'' None False ?st
      = map_option (asCall ?st ''/app'' None)
          (andThen (eachInOrder (\<lambda>nextDst. install 2 demoLib ?ext nextDst (Some ''/app'') False)
                      [''/app/node_modules/b'', ''/app/node_modules/c'']
                      \<lparr>world = [(''/app/node_modules/c/package.json'', leaf ''2.0.0''),
                                (''/app/node_modules/b/package.json'', libB),
                                (''/app/package.json'', app2)],
                        trace = [ListTags ''git://h/b.git'',
                                 CloneRepo ''v1.0.0'' ''git://h/b.git'' ''/app/node_modules/b'',
                                 VerifyRepo (Some ''v1.0.0'') None ''/app/node_modules/b'',
                                 ListTags ''git://h/c.git'',
                                 CloneRepo ''v2.0.0'' ''git://h/c.git'' ''/app/node_modules/c'',
                                 VerifyRepo (Some ''v2.0.0'') None ''/app/node_modules/c'']\<rparr>)
             (\<lambda>st2. Some (buildAddon demoLib ?ext ''/app'' st2)))"
    using install_recursion_order [OF loop, of 2] by blast
  also have "\<dots> = Some (Inr (),
         \<lparr>world = [(''/app/node_modules/d/package.json'', leaf ''3.0.0''),
                   (''/app/node_modules/c/package.json'', leaf ''2.0.0''),
                   (''/app/node_modules/b/package.json'', libB),
                   (''/app/package.json'', app2)],
           trace = [Install ''/app'' None
                     [ListTags ''git://h/b.git'',
                      CloneRepo ''v1.0.0'' ''git://h/b.git'' ''/app/node_modules/b'',
                      VerifyRepo (Some ''v1.0.0'') None ''/app/node_modules/b'',
                      ListTags ''git://h/c.git'',
                      CloneRepo ''v2.0.0'' ''git://h/c.git'' ''/app/node_modules/c'',
                      VerifyRepo (Some ''v2.0.0'') None ''/app/node_modules/c'',
                      Install ''/app/node_modules/b'' (Some ''/app'')
                        [ListTags ''git://h/d.git'',
                         CloneRepo ''v3.0.0'' ''git://h/d.git'' ''/app/node_modules/d'',
                         VerifyRepo (Some ''v3.0.0'') None ''/app/node_modules/d'',
                         Install ''/app/node_modules/d'' (Some ''/app'') []],
                      Install ''/app/node_modules/c'' (Some ''/app'') []]]\<rparr>)"
    by (simp add: inner last addon andThen_def asCall_def)
  finally show ?thesis
    by (simp add: numeral_3_eq_3)
qed






end
